theory Spec2Isabelle
  imports Complex_Main
begin

section \<open>Numbers\<close>

text \<open>
  The script computes on Python and NumPy floating-point numbers (binary64). They are
  modelled as real numbers extended by the two infinities and by NaN. The operations
  \<open>fadd\<close>, \<open>fmul\<close>, \<open>fdiv\<close> and \<open>fsqrt\<close> below are the exact operations on the finite
  numbers, with the rules of IEEE 754 on the infinities and NaN. The function \<open>binary64\<close>
  brings an exact result into the range of the doubles, and the operations of the
  script's own loop (line 110) go through it. Rounding of a result within that range to
  53 significant bits and the sign of zero are not modelled; the statistics and the
  percentile, which pandas and NumPy compute, are taken in exact arithmetic.
\<close>

datatype fnum = Fin real | PInf | NInf | NaN

fun isnan :: "fnum \<Rightarrow> bool" where
  "isnan NaN = True"
| "isnan _ = False"

fun fneg :: "fnum \<Rightarrow> fnum" where
  "fneg (Fin a) = Fin (- a)"
| "fneg PInf = NInf"
| "fneg NInf = PInf"
| "fneg NaN = NaN"

fun fadd :: "fnum \<Rightarrow> fnum \<Rightarrow> fnum" where
  "fadd (Fin a) (Fin b) = Fin (a + b)"
| "fadd NaN _ = NaN"
| "fadd _ NaN = NaN"
| "fadd PInf NInf = NaN"
| "fadd NInf PInf = NaN"
| "fadd PInf _ = PInf"
| "fadd _ PInf = PInf"
| "fadd NInf _ = NInf"
| "fadd _ NInf = NInf"

definition fsub :: "fnum \<Rightarrow> fnum \<Rightarrow> fnum" where
  "fsub a b = fadd a (fneg b)"

text \<open>The sign of an infinite product or quotient: the infinity itself, or its negation.\<close>

definition signed_inf :: "bool \<Rightarrow> fnum" where
  "signed_inf positive = (if positive then PInf else NInf)"

fun fmul :: "fnum \<Rightarrow> fnum \<Rightarrow> fnum" where
  "fmul (Fin a) (Fin b) = Fin (a * b)"
| "fmul NaN _ = NaN"
| "fmul _ NaN = NaN"
| "fmul (Fin a) PInf = (if a = 0 then NaN else signed_inf (0 < a))"
| "fmul (Fin a) NInf = (if a = 0 then NaN else signed_inf (a < 0))"
| "fmul PInf (Fin b) = (if b = 0 then NaN else signed_inf (0 < b))"
| "fmul NInf (Fin b) = (if b = 0 then NaN else signed_inf (b < 0))"
| "fmul PInf PInf = PInf"
| "fmul NInf NInf = PInf"
| "fmul PInf NInf = NInf"
| "fmul NInf PInf = NInf"

fun fdiv :: "fnum \<Rightarrow> fnum \<Rightarrow> fnum" where
  "fdiv (Fin a) (Fin b) =
     (if b = 0 then (if a = 0 then NaN else signed_inf (0 < a)) else Fin (a / b))"
| "fdiv NaN _ = NaN"
| "fdiv _ NaN = NaN"
| "fdiv (Fin a) _ = Fin 0"
| "fdiv PInf (Fin b) = signed_inf (0 \<le> b)"
| "fdiv NInf (Fin b) = signed_inf (b < 0)"
| "fdiv _ _ = NaN"

fun fsqrt :: "fnum \<Rightarrow> fnum" where
  "fsqrt (Fin a) = (if a < 0 then NaN else Fin (sqrt a))"
| "fsqrt PInf = PInf"
| "fsqrt _ = NaN"

fun fabs :: "fnum \<Rightarrow> fnum" where
  "fabs (Fin a) = Fin \<bar>a\<bar>"
| "fabs NaN = NaN"
| "fabs _ = PInf"

text \<open>Comparisons: every comparison with NaN is false.\<close>

fun flt :: "fnum \<Rightarrow> fnum \<Rightarrow> bool" where
  "flt (Fin a) (Fin b) = (a < b)"
| "flt NaN _ = False"
| "flt _ NaN = False"
| "flt _ NInf = False"
| "flt PInf _ = False"
| "flt _ _ = True"

fun fle :: "fnum \<Rightarrow> fnum \<Rightarrow> bool" where
  "fle (Fin a) (Fin b) = (a \<le> b)"
| "fle NaN _ = False"
| "fle _ NaN = False"
| "fle NInf _ = True"
| "fle _ PInf = True"
| "fle _ _ = False"

text \<open>
  The range of binary64 under rounding to nearest: an exact result of magnitude
  \<open>2 ^ 1024 - 2 ^ 970\<close> or more (half a unit in the last place beyond the largest double)
  becomes an infinity, and an exact result of magnitude \<open>2 ^ - 1075\<close> or less (half of the
  smallest double) becomes zero.
\<close>

fun binary64 :: "fnum \<Rightarrow> fnum" where
  "binary64 (Fin a) =
     (if 2 ^ 1024 - 2 ^ 970 \<le> a then PInf
      else if a \<le> - (2 ^ 1024 - 2 ^ 970) then NInf
      else if \<bar>a\<bar> \<le> 1 / 2 ^ 1075 then Fin 0
      else Fin a)"
| "binary64 x = x"

text \<open>A sum, from the left, starting at zero.\<close>

definition fsum :: "fnum list \<Rightarrow> fnum" where
  "fsum xs = foldl fadd (Fin 0) xs"


section \<open>Price table and daily returns (lines 43 and 46)\<close>

text \<open>
  A data frame is the list of its columns, one per asset, each column the list of its
  cells in the order of the index; the columns of a frame have the same length. A missing
  value is NaN. A frame with no column has no row.
\<close>

type_synonym frame = "fnum list list"

definition nrows :: "frame \<Rightarrow> nat" where
  "nrows df = (case df of [] \<Rightarrow> 0 | c # _ \<Rightarrow> length c)"

definition wf_frame :: "frame \<Rightarrow> bool" where
  "wf_frame df = list_all (\<lambda>c. length c = nrows df) df"

text \<open>\<^verbatim>\<open>data.ffill()\<close>: a missing cell takes the last value seen above it in its column;
  missing cells at the top of a column stay missing.\<close>

fun ffill_from :: "fnum \<Rightarrow> fnum list \<Rightarrow> fnum list" where
  "ffill_from seen [] = []"
| "ffill_from seen (x # xs) =
     (if isnan x then seen # ffill_from seen xs else x # ffill_from x xs)"

definition ffill :: "frame \<Rightarrow> frame" where
  "ffill df = map (ffill_from NaN) df"

text \<open>\<^verbatim>\<open>data.pct_change()\<close>: each cell divided by the cell above it, minus one; the first
  row, which has no cell above it, is NaN.\<close>

fun pct_from :: "fnum \<Rightarrow> fnum list \<Rightarrow> fnum list" where
  "pct_from prev [] = []"
| "pct_from prev (x # xs) = fsub (fdiv x prev) (Fin 1) # pct_from x xs"

definition pct_change :: "frame \<Rightarrow> frame" where
  "pct_change df = map (pct_from NaN) df"

text \<open>\<^verbatim>\<open>.dropna()\<close>: every row with a NaN in any column is removed.\<close>

definition row_has_na :: "frame \<Rightarrow> nat \<Rightarrow> bool" where
  "row_has_na df i = list_ex (\<lambda>c. isnan (c ! i)) df"

definition kept_rows :: "frame \<Rightarrow> nat list" where
  "kept_rows df = filter (\<lambda>i. \<not> row_has_na df i) [0..<nrows df]"

definition dropna :: "frame \<Rightarrow> frame" where
  "dropna df = map (\<lambda>c. map (\<lambda>i. c ! i) (kept_rows df)) df"

definition daily_returns :: "frame \<Rightarrow> frame" where
  "daily_returns data = dropna (pct_change data)"

section \<open>Return statistics (lines 85 and 86)\<close>

text \<open>
  \<^verbatim>\<open>returns.mean()\<close> and \<^verbatim>\<open>returns.std()\<close> of pandas, per column, with the defaults
  \<^verbatim>\<open>skipna=True\<close> and \<^verbatim>\<open>ddof=1\<close>: NaN cells are left out; the mean is the sum over the
  count; the variance is the sum of the squared deviations from the mean over the count
  minus \<^verbatim>\<open>ddof\<close>, and NaN when the count is not above \<^verbatim>\<open>ddof\<close>.
\<close>

definition series_mean :: "fnum list \<Rightarrow> fnum" where
  "series_mean c =
     (let xs = filter (\<lambda>x. \<not> isnan x) c
      in fdiv (fsum xs) (Fin (real (length xs))))"

definition series_var :: "nat \<Rightarrow> fnum list \<Rightarrow> fnum" where
  "series_var ddof c =
     (let xs = filter (\<lambda>x. \<not> isnan x) c;
          count = length xs
      in if count \<le> ddof then NaN
         else
           (let avg = fdiv (fsum xs) (Fin (real count));
                sqr = map (\<lambda>x. fmul (fsub avg x) (fsub avg x)) xs
            in fdiv (fsum sqr) (Fin (real (count - ddof)))))"

definition series_std :: "fnum list \<Rightarrow> fnum" where
  "series_std c = fsqrt (series_var 1 c)"

section \<open>The random number generator (lines 78 and 99)\<close>

text \<open>
  NumPy's global generator is not part of the script. It is a parameter \<open>G\<close>: \<open>G s k\<close> is
  the \<open>k\<close>-th standard normal number the generator returns after \<^verbatim>\<open>np.random.seed(s)\<close>.
  The state of the generator is the stream it is on and the number of draws taken from it.
  The generator is global: the state the script finds at line 78 is whatever an earlier
  execution in the same process has left.
\<close>

record rng =
  stream :: "nat \<Rightarrow> real"
  pos :: nat

definition seed :: "(nat \<Rightarrow> nat \<Rightarrow> real) \<Rightarrow> nat \<Rightarrow> rng \<Rightarrow> rng" where
  "seed G s g = g\<lparr>stream := G s, pos := 0\<rparr>"

datatype error = IndexError | ValueError

text \<open>Broadcasting a vector of per-asset parameters to the \<open>T\<close> columns of the draw: a
  vector of length \<open>T\<close> is taken as it is, a vector of length one is repeated, any other
  length is a shape mismatch.\<close>

definition broadcast :: "fnum list \<Rightarrow> nat \<Rightarrow> fnum list option" where
  "broadcast v T =
     (if length v = T then Some v
      else if length v = 1 then Some (replicate T (v ! 0))
      else None)"

text \<open>
  \<^verbatim>\<open>np.random.normal(loc, scale, (H, T))\<close>: a negative scale and a shape mismatch raise
  \<^verbatim>\<open>ValueError\<close>; otherwise the cell of row \<open>t\<close> and column \<open>n\<close> is
  \<open>loc n + scale n * z\<close> for the next standard normal number \<open>z\<close>, the cells being filled
  row by row.
\<close>

definition normal_cell :: "rng \<Rightarrow> fnum list \<Rightarrow> fnum list \<Rightarrow> nat \<Rightarrow> nat \<Rightarrow> nat \<Rightarrow> fnum" where
  "normal_cell g loc scale T t n =
     fadd (loc ! n) (fmul (scale ! n) (Fin (stream g (pos g + t * T + n))))"

definition normal :: "rng \<Rightarrow> fnum list \<Rightarrow> fnum list \<Rightarrow> nat \<Rightarrow> nat \<Rightarrow> error + (fnum list list \<times> rng)" where
  "normal g loc scale H T =
     (if list_ex (\<lambda>s. flt s (Fin 0)) scale then Inl ValueError
      else
        (case (broadcast loc T, broadcast scale T) of
           (Some l, Some s) \<Rightarrow>
             Inr (map (\<lambda>t. map (\<lambda>n. normal_cell g l s T t n) [0..<T]) [0..<H],
                  g\<lparr>pos := pos g + H * T\<rparr>)
         | _ \<Rightarrow> Inl ValueError))"

section \<open>The simulation loop (lines 97 to 113)\<close>

text \<open>\<^verbatim>\<open>np.mean(random_returns, axis=1)\<close>: the sum of each row over its length.\<close>

definition row_mean :: "fnum list \<Rightarrow> fnum" where
  "row_mean row = fdiv (fsum row) (Fin (real (length row)))"

definition portfolio_daily_returns :: "fnum list list \<Rightarrow> fnum list" where
  "portfolio_daily_returns random_returns = map row_mean random_returns"

text \<open>The inner loop: \<^verbatim>\<open>current_value = current_value * (1 + r)\<close>, a sum and a product
  of doubles, each value appended to the path.\<close>

fun portfolio_path :: "fnum \<Rightarrow> fnum list \<Rightarrow> fnum list" where
  "portfolio_path current_value [] = []"
| "portfolio_path current_value (r # rs) =
     (let v = binary64 (fmul current_value (binary64 (fadd (Fin 1) r)))
      in v # portfolio_path v rs)"

text \<open>
  The outer loop over the runs, \<open>k\<close> runs still to do: each run draws its returns from the
  generator, whose state goes on to the next run, and appends its path to the frame as a
  new column. \<^verbatim>\<open>initial_investment\<close> is an integer (the widget's value is one).
\<close>

fun sim_loop ::
  "nat \<Rightarrow> fnum list \<Rightarrow> fnum list \<Rightarrow> int \<Rightarrow> nat \<Rightarrow> nat \<Rightarrow> rng \<Rightarrow> frame \<Rightarrow> error + (frame \<times> rng)" where
  "sim_loop 0 avg_daily_return daily_vol initial_investment H T g simulation_df =
     Inr (simulation_df, g)"
| "sim_loop (Suc k) avg_daily_return daily_vol initial_investment H T g simulation_df =
     (case normal g avg_daily_return daily_vol H T of
        Inl e \<Rightarrow> Inl e
      | Inr (random_returns, g') \<Rightarrow>
          sim_loop k avg_daily_return daily_vol initial_investment H T g'
            (simulation_df @
              [portfolio_path (Fin (real_of_int initial_investment))
                 (portfolio_daily_returns random_returns)]))"

text \<open>Lines 78 to 113: the generator is seeded, once, and the loop runs \<open>R\<close> times from
  the empty frame.\<close>

definition simulate ::
  "(nat \<Rightarrow> nat \<Rightarrow> real) \<Rightarrow> rng \<Rightarrow> fnum list \<Rightarrow> fnum list \<Rightarrow> int \<Rightarrow> nat \<Rightarrow> nat \<Rightarrow> nat \<Rightarrow> error + (frame \<times> rng)" where
  "simulate G g0 avg_daily_return daily_vol initial_investment H R T =
     sim_loop R avg_daily_return daily_vol initial_investment H T (seed G 42 g0) []"


section \<open>Risk metrics (lines 129 to 145)\<close>

text \<open>\<^verbatim>\<open>.iloc[-1]\<close>: the last row of a frame; \<^verbatim>\<open>IndexError\<close> on a frame with no row.\<close>

definition iloc_last :: "frame \<Rightarrow> error + fnum list" where
  "iloc_last df = (if nrows df = 0 then Inl IndexError else Inr (map last df))"

text \<open>
  \<^verbatim>\<open>np.percentile(a, q)\<close> of NumPy with its default method (linear), for \<open>0 \<le> q \<le> 100\<close>
  and a sample that is not empty, which is how line 130 calls it: NaN when the sample has
  a NaN; otherwise the sample is sorted, the virtual index is \<open>(n - 1) * (q / 100)\<close>, and
  the result interpolates between the sorted values at its floor and, where there is one,
  the next index. The interpolation \<open>lerp\<close> is computed from the upper value when the
  weight is at least one half.
\<close>

fun finsort :: "fnum \<Rightarrow> fnum list \<Rightarrow> fnum list" where
  "finsort x [] = [x]"
| "finsort x (y # ys) = (if fle x y then x # y # ys else y # finsort x ys)"

definition fsort :: "fnum list \<Rightarrow> fnum list" where
  "fsort xs = foldr finsort xs []"

definition lerp :: "fnum \<Rightarrow> fnum \<Rightarrow> real \<Rightarrow> fnum" where
  "lerp a b t =
     (if 1 / 2 \<le> t then fsub b (fmul (fsub b a) (Fin (1 - t)))
      else fadd a (fmul (fsub b a) (Fin t)))"

definition percentile :: "fnum list \<Rightarrow> real \<Rightarrow> fnum" where
  "percentile a q =
     (if list_ex isnan a then NaN
      else
        (let arr = fsort a;
             n = length a;
             virtual_index = (real n - 1) * (q / 100);
             previous_index = nat \<lfloor>virtual_index\<rfloor>;
             next_index = min (previous_index + 1) (n - 1);
             gamma = virtual_index - real previous_index
         in lerp (arr ! previous_index) (arr ! next_index) gamma))"

text \<open>The two displays of lines 140 to 145: the loss branch shows \<^verbatim>\<open>VaR_95\<close>, the other
  branch shows \<^verbatim>\<open>abs(VaR_95)\<close> as the projected growth.\<close>

datatype verdict = Loss fnum | Gain fnum

record risk_metrics =
  future_value_95 :: fnum
  VaR_95 :: fnum
  verdict :: verdict

definition classify :: "fnum \<Rightarrow> verdict" where
  "classify VaR = (if flt (Fin 0) VaR then Loss VaR else Gain (fabs VaR))"

definition risk_summary :: "frame \<Rightarrow> int \<Rightarrow> error + risk_metrics" where
  "risk_summary simulation_df initial_investment =
     (case iloc_last simulation_df of
        Inl e \<Rightarrow> Inl e
      | Inr ending_values \<Rightarrow>
          (let p5 = percentile ending_values 5;
               VaR = fsub (Fin (real_of_int initial_investment)) p5
           in Inr \<lparr>future_value_95 = p5, VaR_95 = VaR, verdict = classify VaR\<rparr>))"

section \<open>The analysis (lines 43 to 145)\<close>

text \<open>
  The computation of the script from the downloaded table of closing prices to the risk
  metrics, without the calls that only display. The horizon \<open>H\<close> and the number of runs
  \<open>R\<close> are parameters here; the script fixes them. An exception ends the computation
  (the script catches it at line 147 and shows its message).
\<close>

definition analysis ::
  "(nat \<Rightarrow> nat \<Rightarrow> real) \<Rightarrow> rng \<Rightarrow> frame \<Rightarrow> string list \<Rightarrow> int \<Rightarrow> nat \<Rightarrow> nat \<Rightarrow> error + (frame \<times> risk_metrics)" where
  "analysis G g0 downloaded tickers initial_investment H R =
     (let data = ffill downloaded;
          returns = daily_returns data
      in case iloc_last data of
           Inl e \<Rightarrow> Inl e
         | Inr last_prices \<Rightarrow>
             (let daily_vol = map series_std returns;
                  avg_daily_return = map series_mean returns
              in case simulate G g0 avg_daily_return daily_vol initial_investment H R (length tickers) of
                   Inl e \<Rightarrow> Inl e
                 | Inr (simulation_df, g) \<Rightarrow>
                     (case risk_summary simulation_df initial_investment of
                        Inl e \<Rightarrow> Inl e
                      | Inr m \<Rightarrow> Inr (simulation_df, m))))"

definition num_simulations :: nat where
  "num_simulations = 10000"

definition time_horizon :: nat where
  "time_horizon = 252"

definition run_analysis ::
  "(nat \<Rightarrow> nat \<Rightarrow> real) \<Rightarrow> rng \<Rightarrow> frame \<Rightarrow> string list \<Rightarrow> int \<Rightarrow> error + (frame \<times> risk_metrics)" where
  "run_analysis G g0 downloaded tickers initial_investment =
     analysis G g0 downloaded tickers initial_investment time_horizon num_simulations"


section \<open>Notions used to state the properties\<close>

text \<open>The generator after \<open>k\<close> more draws.\<close>

definition advance :: "rng \<Rightarrow> nat \<Rightarrow> rng" where
  "advance g k = g\<lparr>pos := pos g + k\<rparr>"

text \<open>The parameters that \<open>normal\<close> accepts.\<close>

definition params_ok :: "fnum list \<Rightarrow> fnum list \<Rightarrow> nat \<Rightarrow> bool" where
  "params_ok loc scale T =
     (\<not> list_ex (\<lambda>s. flt s (Fin 0)) scale \<and> broadcast loc T \<noteq> None \<and> broadcast scale T \<noteq> None)"

text \<open>The matrix of random returns of run \<open>r\<close>, the generator being \<open>g\<close> when the loop
  starts: what \<open>normal\<close> returns once the \<open>r\<close> runs before it have taken their draws. And
  the path of that run.\<close>

definition run_returns :: "rng \<Rightarrow> fnum list \<Rightarrow> fnum list \<Rightarrow> nat \<Rightarrow> nat \<Rightarrow> nat \<Rightarrow> fnum list list" where
  "run_returns g loc scale H T r =
     (case normal (advance g (r * (H * T))) loc scale H T of
        Inr (random_returns, _) \<Rightarrow> random_returns
      | Inl _ \<Rightarrow> [])"

definition run_path :: "rng \<Rightarrow> fnum list \<Rightarrow> fnum list \<Rightarrow> int \<Rightarrow> nat \<Rightarrow> nat \<Rightarrow> nat \<Rightarrow> fnum list" where
  "run_path g loc scale V0 H T r =
     portfolio_path (Fin (real_of_int V0))
       (portfolio_daily_returns (run_returns g loc scale H T r))"

text \<open>The 5th percentile as the specification words it, on real numbers: the rank is
  \<open>0.05 * (R - 1)\<close>, and the result interpolates between the two sorted values that
  bracket the rank.\<close>

definition interpolated_p5 :: "real list \<Rightarrow> real" where
  "interpolated_p5 xs =
     (let s = sort xs;
          rank = 0.05 * (real (length xs) - 1);
          lo = nat \<lfloor>rank\<rfloor>;
          hi = nat \<lceil>rank\<rceil>
      in s ! lo + (rank - real lo) * (s ! hi - s ! lo))"

text \<open>The arithmetic mean and the sample standard deviation (divisor \<open>n - 1\<close>) of a list of
  real numbers, and the population standard deviation (divisor \<open>n\<close>) to tell it from.\<close>

definition arithmetic_mean :: "real list \<Rightarrow> real" where
  "arithmetic_mean xs = sum_list xs / real (length xs)"

definition squared_deviations :: "real list \<Rightarrow> real" where
  "squared_deviations xs = (\<Sum>x\<leftarrow>xs. (x - arithmetic_mean xs)\<^sup>2)"

definition sample_std :: "real list \<Rightarrow> real" where
  "sample_std xs = sqrt (squared_deviations xs / (real (length xs) - 1))"

definition population_std :: "real list \<Rightarrow> real" where
  "population_std xs = sqrt (squared_deviations xs / real (length xs))"


section \<open>The compounding loop\<close>

lemma length_portfolio_path: "length (portfolio_path v rs) = length rs"
  by (induction rs arbitrary: v) (simp_all add: Let_def)

lemma portfolio_path_nth:
  "t < length rs \<Longrightarrow>
   portfolio_path v rs ! t =
     binary64 (fmul (if t = 0 then v else portfolio_path v rs ! (t - 1))
                 (binary64 (fadd (Fin 1) (rs ! t))))"
proof (induction rs arbitrary: v t)
  case Nil then show ?case by simp
next
  case (Cons r rs)
  show ?case
  proof (cases t)
    case 0 then show ?thesis by (simp add: Let_def)
  next
    case (Suc u)
    with Cons.prems have "u < length rs" by simp
    from Cons.IH[OF this, of "binary64 (fmul v (binary64 (fadd (Fin 1) r)))"] Suc show ?thesis
      by (cases u) (simp_all add: Let_def)
  qed
qed

lemma portfolio_path_foldl:
  "t < length rs \<Longrightarrow>
   portfolio_path v rs ! t =
     foldl (\<lambda>c r. binary64 (fmul c (binary64 (fadd (Fin 1) r)))) v (take (Suc t) rs)"
proof (induction rs arbitrary: v t)
  case Nil then show ?case by simp
next
  case (Cons r rs)
  show ?case
  proof (cases t)
    case 0 then show ?thesis by (simp add: Let_def)
  next
    case (Suc u)
    with Cons.prems have "u < length rs" by simp
    from Cons.IH[OF this, of "binary64 (fmul v (binary64 (fadd (Fin 1) r)))"] Suc show ?thesis
      by (simp add: Let_def)
  qed
qed

section \<open>The generator and the simulation loop\<close>

lemma normal_error: "\<not> params_ok loc scale T \<Longrightarrow> normal g loc scale H T = Inl ValueError"
  by (auto simp: params_ok_def normal_def split: option.splits)

lemma normal_ok:
  "params_ok loc scale T \<Longrightarrow> \<exists>m. normal g loc scale H T = Inr (m, advance g (H * T))"
  by (auto simp: params_ok_def normal_def advance_def split: option.splits)

lemma normal_run_returns:
  "params_ok loc scale T \<Longrightarrow>
   normal g loc scale H T = Inr (run_returns g loc scale H T 0, advance g (H * T))"
  using normal_ok[of loc scale T g H]
  by (auto simp: run_returns_def advance_def)

lemma advance_advance: "advance (advance g a) b = advance g (a + b)"
  by (simp add: advance_def)

lemma run_returns_advance:
  "run_returns (advance g (H * T)) loc scale H T r = run_returns g loc scale H T (Suc r)"
  by (simp add: run_returns_def advance_advance add.commute)

lemma run_path_advance:
  "run_path (advance g (H * T)) loc scale V0 H T r = run_path g loc scale V0 H T (Suc r)"
  by (simp add: run_path_def run_returns_advance)

lemma sim_loop_ok:
  "params_ok loc scale T \<Longrightarrow>
   sim_loop k loc scale V0 H T g df =
     Inr (df @ map (run_path g loc scale V0 H T) [0..<k], advance g (k * (H * T)))"
proof (induction k arbitrary: g df)
  case 0
  show ?case by (simp add: advance_def)
next
  case (Suc k)
  have upt: "[0..<Suc k] = 0 # map Suc [0..<k]"
    by (simp add: upt_conv_Cons map_Suc_upt del: upt_Suc)
  show ?case
    using Suc.prems
    by (simp add: normal_run_returns Suc.IH[OF Suc.prems] upt run_path_advance[symmetric] o_def
        advance_advance run_path_def[of g _ _ _ _ _ 0] del: upt_Suc)
qed

lemma simulate_cases:
  "simulate G g0 loc scale V0 H R T =
     (if R = 0 \<or> params_ok loc scale T
      then Inr (map (run_path (seed G 42 g0) loc scale V0 H T) [0..<R],
                advance (seed G 42 g0) (R * (H * T)))
      else Inl ValueError)"
proof (cases "params_ok loc scale T")
  case True
  then show ?thesis by (simp add: simulate_def sim_loop_ok)
next
  case False
  then show ?thesis
    by (cases R) (simp_all add: simulate_def normal_error advance_def)
qed

lemma simulate_InrD:
  assumes "simulate G g0 loc scale V0 H R T = Inr (df, g')"
  shows "df = map (run_path (seed G 42 g0) loc scale V0 H T) [0..<R]"
    and "g' = advance (seed G 42 g0) (R * (H * T))"
    and "0 < R \<Longrightarrow> params_ok loc scale T"
  using assms by (auto simp: simulate_cases split: if_splits)

lemma length_run_returns:
  "params_ok loc scale T \<Longrightarrow> length (run_returns g loc scale H T r) = H"
  by (auto simp: run_returns_def normal_def params_ok_def split: option.splits)

lemma length_run_path:
  "params_ok loc scale T \<Longrightarrow> length (run_path g loc scale V0 H T r) = H"
  by (simp add: run_path_def length_portfolio_path portfolio_daily_returns_def length_run_returns)

section \<open>The simulated paths\<close>

lemma run_returns_cell:
  assumes "params_ok loc scale T" "broadcast loc T = Some l" "broadcast scale T = Some s"
    and "t < H" "n < T"
  shows "run_returns g loc scale H T r ! t ! n =
           fadd (l ! n) (fmul (s ! n) (Fin (stream g (pos g + r * (H * T) + t * T + n))))"
  using assms
  by (simp add: run_returns_def normal_def params_ok_def normal_cell_def advance_def)

lemma length_run_returns_row:
  "params_ok loc scale T \<Longrightarrow> t < H \<Longrightarrow> length (run_returns g loc scale H T r ! t) = T"
  by (auto simp: run_returns_def normal_def params_ok_def split: option.splits)

lemma foldl_fadd_Fin: "foldl fadd (Fin a) (map Fin xs) = Fin (a + sum_list xs)"
  by (induction xs arbitrary: a) (simp_all add: add.assoc)

lemma seed_eq: "seed G s g = \<lparr>stream = G s, pos = 0\<rparr>"
  by (cases g) (simp add: seed_def)

lemma mean_of_finite_row:
  "xs \<noteq> [] \<Longrightarrow>
   fdiv (foldl fadd (Fin 0) (map Fin xs)) (Fin (real (length xs))) = Fin (sum_list xs / real (length xs))"
  by (simp add: foldl_fadd_Fin)

text \<open>
  Claim C1. When the simulation returns an ensemble, the row of random returns of run \<open>r\<close>
  on day \<open>t\<close> holds one draw per asset (\<open>T\<close> of them), each from its own position of the
  generator's stream, with the mean and the volatility of its asset. The value of the run
  on that day is the value of the day before (the initial investment for day 0) times one
  plus the mean of the row, the sum of its cells divided by their number, which for a row
  of finite numbers is their arithmetic mean.
\<close>

theorem compounding_step:
  assumes "simulate G \<lparr>stream = (\<lambda>k. 0), pos = 7\<rparr> loc scale V0 H R T = Inr (df, g')" and "r < R" and "t < H"
  shows "length (run_returns (seed G 42 \<lparr>stream = (\<lambda>k. 0), pos = 7\<rparr>) loc scale H T r ! t) = T \<and>
         (\<forall>n<T. \<exists>l s. broadcast loc T = Some l \<and> broadcast scale T = Some s \<and>
            run_returns (seed G 42 \<lparr>stream = (\<lambda>k. 0), pos = 7\<rparr>) loc scale H T r ! t ! n =
              fadd (l ! n) (fmul (s ! n) (Fin (G 42 (r * (H * T) + t * T + n))))) \<and>
         df ! r ! t =
           binary64 (fmul (if t = 0 then Fin (real_of_int V0) else df ! r ! (t - 1))
             (binary64 (fadd (Fin 1)
                (fdiv (foldl fadd (Fin 0) (run_returns (seed G 42 \<lparr>stream = (\<lambda>k. 0), pos = 7\<rparr>) loc scale H T r ! t))
                      (Fin (real T)))))) \<and>
         (\<forall>xs. run_returns (seed G 42 \<lparr>stream = (\<lambda>k. 0), pos = 7\<rparr>) loc scale H T r ! t = map Fin xs \<longrightarrow> xs \<noteq> [] \<longrightarrow>
            fdiv (foldl fadd (Fin 0) (run_returns (seed G 42 \<lparr>stream = (\<lambda>k. 0), pos = 7\<rparr>) loc scale H T r ! t)) (Fin (real T))
              = Fin (sum_list xs / real (length xs)))"
proof -
  from assms(2) have R: "0 < R" by simp
  have ok: "params_ok loc scale T" by (rule simulate_InrD(3)[OF assms(1) R])
  let ?row = "run_returns (seed G 42 \<lparr>stream = (\<lambda>k. 0), pos = 7\<rparr>) loc scale H T r ! t"
  have row: "length ?row = T" by (rule length_run_returns_row[OF ok assms(3)])
  from ok obtain l s where ls: "broadcast loc T = Some l" "broadcast scale T = Some s"
    by (auto simp: params_ok_def)
  have cells: "\<forall>n<T. \<exists>l s. broadcast loc T = Some l \<and> broadcast scale T = Some s \<and>
            ?row ! n = fadd (l ! n) (fmul (s ! n) (Fin (G 42 (r * (H * T) + t * T + n))))"
    using run_returns_cell[OF ok ls assms(3), of _ "seed G 42 g0" r] ls
    by (simp add: seed_eq)
  have col: "df ! r = run_path (seed G 42 \<lparr>stream = (\<lambda>k. 0), pos = 7\<rparr>) loc scale V0 H T r"
    using simulate_InrD(1)[OF assms(1)] assms(2) by simp
  let ?rs = "portfolio_daily_returns (run_returns (seed G 42 \<lparr>stream = (\<lambda>k. 0), pos = 7\<rparr>) loc scale H T r)"
  have len: "length ?rs = H"
    by (simp add: portfolio_daily_returns_def length_run_returns[OF ok])
  have nth: "?rs ! t = fdiv (foldl fadd (Fin 0) ?row) (Fin (real T))"
    using assms(3) by (simp add: portfolio_daily_returns_def length_run_returns[OF ok]
        row_mean_def fsum_def row)
  have "t < length ?rs" using len assms(3) by simp
  from portfolio_path_nth[OF this, of "Fin (real_of_int V0)"]
  have step: "df ! r ! t =
           binary64 (fmul (if t = 0 then Fin (real_of_int V0) else df ! r ! (t - 1))
             (binary64 (fadd (Fin 1) (fdiv (foldl fadd (Fin 0) ?row) (Fin (real T))))))"
    by (simp add: col run_path_def nth)
  have mean: "fdiv (foldl fadd (Fin 0) ?row) (Fin (real T)) = Fin (sum_list xs / real (length xs))"
    if "?row = map Fin xs" "xs \<noteq> []" for xs
  proof -
    from that(1) row have "length xs = T" by (metis length_map)
    with mean_of_finite_row[OF that(2)] that(1) show ?thesis by simp
  qed
  from row cells step mean show ?thesis by blast
qed

lemma demo_simulate:
  "simulate (\<lambda>s k. real k / 10) \<lparr>stream = (\<lambda>k. 0), pos = 7\<rparr> [Fin 0] [Fin 1] 100 2 2 1
     = Inr ([[Fin 100, Fin 110], [Fin 120, Fin 156]], \<lparr>stream = (\<lambda>k. real k / 10), pos = 4\<rparr>)"
  by (simp add: simulate_cases params_ok_def broadcast_def run_path_def run_returns_def
        normal_def normal_cell_def advance_def seed_def portfolio_daily_returns_def row_mean_def
        fsum_def Let_def upt_rec)

lemma demo_returns:
  "portfolio_daily_returns
     (run_returns (seed (\<lambda>s k. real k / 10) 42 \<lparr>stream = (\<lambda>k. 0), pos = 7\<rparr>) [Fin 0] [Fin 1] 2 1 1)
   = [Fin (2 / 10), Fin (3 / 10)]"
  by (simp add: params_ok_def broadcast_def run_returns_def
        normal_def normal_cell_def advance_def seed_def portfolio_daily_returns_def row_mean_def
        fsum_def Let_def upt_rec)

lemma demo_returns_first:
  "portfolio_daily_returns
     (run_returns (seed (\<lambda>s k. real k / 10) 42 \<lparr>stream = (\<lambda>k. 0), pos = 7\<rparr>) [Fin 0] [Fin 1] 2 1 0)
   = [Fin 0, Fin (1 / 10)]"
  by (simp add: params_ok_def broadcast_def run_returns_def
        normal_def normal_cell_def advance_def seed_def portfolio_daily_returns_def row_mean_def
        fsum_def Let_def upt_rec)

text \<open>Two assets with different statistics, two days and two runs.\<close>

lemma demo_two_assets:
  "simulate (\<lambda>s k. real k / 10) \<lparr>stream = (\<lambda>k. 0), pos = 7\<rparr> [Fin 0, Fin (1 / 10)] [Fin 1, Fin 2] 100 2 2 2
     = Inr ([[Fin 115, Fin (667 / 4)], [Fin 175, Fin (1435 / 4)]],
            \<lparr>stream = (\<lambda>k. real k / 10), pos = 8\<rparr>)"
  by (simp add: simulate_cases params_ok_def broadcast_def run_path_def run_returns_def
        normal_def normal_cell_def advance_def seed_def portfolio_daily_returns_def row_mean_def
        fsum_def Let_def upt_rec)

lemma demo_two_assets_returns:
  "run_returns (seed (\<lambda>s k. real k / 10) 42 \<lparr>stream = (\<lambda>k. 0), pos = 7\<rparr>) [Fin 0, Fin (1 / 10)] [Fin 1, Fin 2] 2 2 1
     = [[Fin (4 / 10), Fin (11 / 10)], [Fin (6 / 10), Fin (15 / 10)]]"
  by (simp add: params_ok_def broadcast_def run_returns_def
        normal_def normal_cell_def advance_def seed_def Let_def upt_rec)

text \<open>Run 1, day 1 of the simulation of two assets: the draws 0.6 and 0.7 give the returns
  0.6 and 1.5, whose mean is 1.05, and the value goes from 175 to 358.75.\<close>

theorem compounding_step_witness:
  "simulate (\<lambda>s k. real k / 10) \<lparr>stream = (\<lambda>k. 0), pos = 7\<rparr> [Fin 0, Fin (1 / 10)] [Fin 1, Fin 2] 100 2 2 2
     = Inr ([[Fin 115, Fin (667 / 4)], [Fin 175, Fin (1435 / 4)]],
            \<lparr>stream = (\<lambda>k. real k / 10), pos = 8\<rparr>) \<and>
   run_returns (seed (\<lambda>s k. real k / 10) 42 \<lparr>stream = (\<lambda>k. 0), pos = 7\<rparr>) [Fin 0, Fin (1 / 10)] [Fin 1, Fin 2] 2 2 1 ! 1
     = [Fin (6 / 10), Fin (15 / 10)] \<and>
   [[Fin 115, Fin (667 / 4)], [Fin 175, Fin (1435 / 4)]] ! 1 ! 1 =
     binary64 (fmul (Fin 175)
       (binary64 (fadd (Fin 1) (fdiv (foldl fadd (Fin 0) [Fin (6 / 10), Fin (15 / 10)]) (Fin (real 2)))))) \<and>
   fdiv (foldl fadd (Fin 0) [Fin (6 / 10), Fin (15 / 10)]) (Fin (real 2)) = Fin ((6 / 10 + 15 / 10) / 2)"
proof -
  have one: "(1::nat) < 2" by simp
  note th = compounding_step[OF demo_two_assets one one]
  have row: "run_returns (seed (\<lambda>s k. real k / 10) 42 \<lparr>stream = (\<lambda>k. 0), pos = 7\<rparr>) [Fin 0, Fin (1 / 10)] [Fin 1, Fin 2] 2 2 1 ! 1
     = [Fin (6 / 10), Fin (15 / 10)]"
    unfolding demo_two_assets_returns by simp
  from th have "[[Fin 115, Fin (667 / 4)], [Fin 175, Fin (1435 / 4)]] ! 1 ! 1 =
     binary64 (fmul (if (1::nat) = 0 then Fin (real_of_int 100)
                     else [[Fin 115, Fin (667 / 4)], [Fin 175, Fin (1435 / 4)]] ! 1 ! (1 - 1))
       (binary64 (fadd (Fin 1) (fdiv (foldl fadd (Fin 0)
          (run_returns (seed (\<lambda>s k. real k / 10) 42 \<lparr>stream = (\<lambda>k. 0), pos = 7\<rparr>) [Fin 0, Fin (1 / 10)] [Fin 1, Fin 2] 2 2 1 ! 1)) (Fin (real 2))))))"
    by blast
  then have step: "[[Fin 115, Fin (667 / 4)], [Fin 175, Fin (1435 / 4)]] ! 1 ! 1 =
     binary64 (fmul (Fin 175)
       (binary64 (fadd (Fin 1) (fdiv (foldl fadd (Fin 0) [Fin (6 / 10), Fin (15 / 10)]) (Fin (real 2))))))"
    unfolding row by simp
  have mean: "fdiv (foldl fadd (Fin 0) [Fin (6 / 10), Fin (15 / 10)]) (Fin (real 2)) = Fin ((6 / 10 + 15 / 10) / 2)"
    by simp
  from demo_two_assets row step mean show ?thesis by blast
qed




text \<open>
  Claim C7. The ensemble does not depend on the state the generator is in when the
  simulation starts: two executions with the same statistics, horizon and run count
  return the same result. The seed is set once for the whole ensemble: afterwards the
  generator has taken \<open>R * H * T\<close> draws from the stream of seed 42, and the draw of run
  \<open>r\<close>, day \<open>t\<close>, asset \<open>n\<close> is the one at position \<open>r * H * T + t * T + n\<close> of that stream.
\<close>

theorem seeded_once:
  "simulate G g0 loc scale V0 H R T = simulate G g1 loc scale V0 H R T \<and>
   (\<forall>df g'. simulate G g0 loc scale V0 H R T = Inr (df, g') \<longrightarrow>
      stream g' = G 42 \<and> pos g' = R * (H * T) \<and>
      (\<forall>r<R. \<forall>t<H. \<forall>n<T. \<exists>l s. broadcast loc T = Some l \<and> broadcast scale T = Some s \<and>
          run_returns (seed G 42 g0) loc scale H T r ! t ! n =
            fadd (l ! n) (fmul (s ! n) (Fin (G 42 (r * (H * T) + t * T + n))))))"
proof (intro conjI allI impI)
  show "simulate G g0 loc scale V0 H R T = simulate G g1 loc scale V0 H R T"
    by (simp add: simulate_def seed_eq)
next
  fix df g' assume sim: "simulate G g0 loc scale V0 H R T = Inr (df, g')"
  show "stream g' = G 42" "pos g' = R * (H * T)"
    using simulate_InrD(2)[OF sim] by (simp_all add: advance_def seed_def)
next
  fix df g' r t n
  assume sim: "simulate G g0 loc scale V0 H R T = Inr (df, g')" and "r < R" "t < H" "n < T"
  then have ok: "params_ok loc scale T" using simulate_InrD(3)[OF sim] by simp
  then obtain l s where ls: "broadcast loc T = Some l" "broadcast scale T = Some s"
    by (auto simp: params_ok_def)
  from run_returns_cell[OF ok ls \<open>t < H\<close> \<open>n < T\<close>, of "seed G 42 g0" r]
  show "\<exists>l s. broadcast loc T = Some l \<and> broadcast scale T = Some s \<and>
          run_returns (seed G 42 g0) loc scale H T r ! t ! n =
            fadd (l ! n) (fmul (s ! n) (Fin (G 42 (r * (H * T) + t * T + n))))"
    using ls by (simp add: seed_def)
qed

theorem seeded_once_witness:
  "simulate (\<lambda>s k. real k / 10) \<lparr>stream = (\<lambda>k. 0), pos = 7\<rparr> [Fin 0] [Fin 1] 100 2 2 1
     = simulate (\<lambda>s k. real k / 10) \<lparr>stream = (\<lambda>k. 1), pos = 0\<rparr> [Fin 0] [Fin 1] 100 2 2 1
   \<and> pos \<lparr>stream = (\<lambda>k. real k / 10), pos = 4\<rparr> = 2 * (2 * 1)
   \<and> run_returns (seed (\<lambda>s k. real k / 10) 42 \<lparr>stream = (\<lambda>k. 0), pos = 7\<rparr>) [Fin 0] [Fin 1] 2 1 1 ! 1 ! 0
       = Fin (3 / 10)"
proof -
  note th = seeded_once[of "\<lambda>s k. real k / 10" "\<lparr>stream = (\<lambda>k. 0), pos = 7\<rparr>" "[Fin 0]" "[Fin 1]" 100 2 2 1
      "\<lparr>stream = (\<lambda>k. 1), pos = 0\<rparr>"]
  have b: "broadcast [Fin 0] 1 = Some [Fin 0]" "broadcast [Fin 1] 1 = Some [Fin 1]"
    by (simp_all add: broadcast_def)
  from th have same: "simulate (\<lambda>s k. real k / 10) \<lparr>stream = (\<lambda>k. 0), pos = 7\<rparr> [Fin 0] [Fin 1] 100 2 2 1
     = simulate (\<lambda>s k. real k / 10) \<lparr>stream = (\<lambda>k. 1), pos = 0\<rparr> [Fin 0] [Fin 1] 100 2 2 1"
    by (rule conjunct1)
  from th demo_simulate
  have "\<forall>r<2. \<forall>t<2. \<forall>n<1. \<exists>l s. broadcast [Fin 0] 1 = Some l \<and> broadcast [Fin 1] 1 = Some s \<and>
          run_returns (seed (\<lambda>s k. real k / 10) 42 \<lparr>stream = (\<lambda>k. 0), pos = 7\<rparr>) [Fin 0] [Fin 1] 2 1 r ! t ! n =
            fadd (l ! n) (fmul (s ! n) (Fin (real (r * (2 * 1) + t * 1 + n) / 10)))"
    by blast
  then have "\<exists>l s. broadcast [Fin 0] 1 = Some l \<and> broadcast [Fin 1] 1 = Some s \<and>
          run_returns (seed (\<lambda>s k. real k / 10) 42 \<lparr>stream = (\<lambda>k. 0), pos = 7\<rparr>) [Fin 0] [Fin 1] 2 1 1 ! 1 ! 0 =
            fadd (l ! 0) (fmul (s ! 0) (Fin (real (1 * (2 * 1) + 1 * 1 + 0) / 10)))"
    by (metis less_numeral_extra(1) one_less_numeral_iff semiring_norm(76))
  then have "run_returns (seed (\<lambda>s k. real k / 10) 42 \<lparr>stream = (\<lambda>k. 0), pos = 7\<rparr>) [Fin 0] [Fin 1] 2 1 1 ! 1 ! 0
       = Fin (3 / 10)"
    unfolding b by auto
  with same show ?thesis by simp
qed


section \<open>Shape and sign of the ensemble\<close>

lemma factor_in_range:
  assumes "- 1 + 1 / 2 ^ 53 \<le> y" and "y \<le> 2 ^ 1024 - 2 ^ 971"
  shows "binary64 (fadd (Fin 1) (Fin y)) = Fin (1 + y)" and "0 < 1 + y"
proof -
  have lo: "(1::real) / 2 ^ 53 \<le> 1 + y" using assms(1) by simp
  have "(0::real) < 1 / 2 ^ 53" by simp
  with lo show pos: "0 < 1 + y" by linarith
  have "(1::real) / 2 ^ 1075 < 1 / 2 ^ 53" by simp
  with lo have small: "\<not> \<bar>1 + y\<bar> \<le> 1 / 2 ^ 1075" by linarith
  have "(2::real) ^ 971 = 2 * 2 ^ 970" by simp
  moreover have "(1::real) < 2 ^ 970" by simp
  ultimately have big: "\<not> 2 ^ 1024 - 2 ^ 970 \<le> 1 + y" using assms(2) by linarith
  have neg: "\<not> 1 + y \<le> - (2 ^ 1024 - 2 ^ 970)" using pos by simp
  show "binary64 (fadd (Fin 1) (Fin y)) = Fin (1 + y)"
    using big neg small by (simp del: power_strict_increasing_iff)
qed

lemma nonneg_binary64: "0 \<le> a \<Longrightarrow> fle (Fin 0) (binary64 (Fin a))"
  by simp

lemma nonneg_step:
  assumes "fle (Fin 0) v" and "- 1 + 1 / 2 ^ 53 \<le> y" and "y \<le> 2 ^ 1024 - 2 ^ 971"
  shows "fle (Fin 0) (binary64 (fmul v (binary64 (fadd (Fin 1) (Fin y)))))"
proof -
  note f = factor_in_range[OF assms(2,3)]
  show ?thesis
  proof (cases v)
    case (Fin a)
    with assms(1) have "0 \<le> a * (1 + y)" using f(2) by simp
    then show ?thesis unfolding f(1) Fin fmul.simps by (rule nonneg_binary64)
  next
    case PInf
    then show ?thesis unfolding f(1) using f(2) by (simp add: signed_inf_def)
  next
    case NInf
    with assms(1) show ?thesis by simp
  next
    case NaN
    with assms(1) show ?thesis by simp
  qed
qed

lemma nonneg_portfolio_path:
  assumes "\<forall>x \<in> set rs. \<exists>y. x = Fin y \<and> - 1 + 1 / 2 ^ 53 \<le> y \<and> y \<le> 2 ^ 1024 - 2 ^ 971"
    and "fle (Fin 0) v"
  shows "\<forall>w \<in> set (portfolio_path v rs). fle (Fin 0) w"
  using assms
proof (induction rs arbitrary: v)
  case Nil then show ?case by simp
next
  case (Cons r rs)
  from Cons.prems(1) obtain y where y: "r = Fin y" "- 1 + 1 / 2 ^ 53 \<le> y" "y \<le> 2 ^ 1024 - 2 ^ 971"
    by auto
  have step: "fle (Fin 0) (binary64 (fmul v (binary64 (fadd (Fin 1) r))))"
    unfolding y(1) by (rule nonneg_step[OF Cons.prems(2) y(2,3)])
  from Cons.prems(1) have rest: "\<forall>x \<in> set rs. \<exists>y. x = Fin y \<and> - 1 + 1 / 2 ^ 53 \<le> y \<and> y \<le> 2 ^ 1024 - 2 ^ 971"
    by simp
  from Cons.IH[OF rest step] step show ?case by (simp add: Let_def)
qed

text \<open>
  Claim C5, amended. For statistics that the generator accepts, \<open>H \<ge> 1\<close> and \<open>R \<ge> 1\<close>, the
  simulation returns an ensemble of exactly \<open>R\<close> columns of \<open>H\<close> rows each. When moreover
  \<open>V0 > 0\<close> and every portfolio daily return of every run is a finite double above \<open>-1\<close>
  (at least \<open>-1 + 2 ^ - 53\<close>, at most the largest double), no value of the ensemble is
  negative or NaN: it is a finite number at least zero, or plus infinity.
\<close>

theorem ensemble_dimensions:
  assumes ok: "params_ok loc scale T" and H: "1 \<le> H" and R: "1 \<le> R"
  shows "\<exists>df g'. simulate G g0 loc scale V0 H R T = Inr (df, g') \<and>
           length df = R \<and> nrows df = H \<and> (\<forall>c \<in> set df. length c = H) \<and>
           (0 < V0 \<and>
            (\<forall>r<R. \<forall>x \<in> set (portfolio_daily_returns (run_returns (seed G 42 g0) loc scale H T r)).
                \<exists>y. x = Fin y \<and> - 1 + 1 / 2 ^ 53 \<le> y \<and> y \<le> 2 ^ 1024 - 2 ^ 971)
            \<longrightarrow> (\<forall>c \<in> set df. \<forall>v \<in> set c. fle (Fin 0) v))"
proof -
  let ?g = "seed G 42 g0"
  let ?df = "map (run_path ?g loc scale V0 H T) [0..<R]"
  have sim: "simulate G g0 loc scale V0 H R T = Inr (?df, advance ?g (R * (H * T)))"
    using ok by (simp add: simulate_cases)
  have len: "length ?df = R" by simp
  have cols: "\<forall>c \<in> set ?df. length c = H"
    by (auto simp: length_run_path[OF ok])
  have rows: "nrows ?df = H"
    using R by (simp add: nrows_def upt_conv_Cons length_run_path[OF ok] del: upt_Suc)
  have sign: "\<forall>c \<in> set ?df. \<forall>v \<in> set c. fle (Fin 0) v"
    if V0: "0 < V0"
      and above: "\<forall>r<R. \<forall>x \<in> set (portfolio_daily_returns (run_returns ?g loc scale H T r)).
                \<exists>y. x = Fin y \<and> - 1 + 1 / 2 ^ 53 \<le> y \<and> y \<le> 2 ^ 1024 - 2 ^ 971"
  proof (intro ballI)
    fix c v assume "c \<in> set ?df" "v \<in> set c"
    then obtain r where r: "r < R" and c: "c = run_path ?g loc scale V0 H T r" by auto
    from above r have rs: "\<forall>x \<in> set (portfolio_daily_returns (run_returns ?g loc scale H T r)).
                \<exists>y. x = Fin y \<and> - 1 + 1 / 2 ^ 53 \<le> y \<and> y \<le> 2 ^ 1024 - 2 ^ 971"
      by blast
    have start: "fle (Fin 0) (Fin (real_of_int V0))" using V0 by simp
    from nonneg_portfolio_path[OF rs start] \<open>v \<in> set c\<close> show "fle (Fin 0) v"
      by (simp add: c run_path_def)
  qed
  from sim len rows cols sign show ?thesis by blast
qed

text \<open>The two-day, two-run simulation of one asset: two columns of two rows, with the
  portfolio daily returns 0, 0.1, 0.2 and 0.3 and no negative value.\<close>

theorem ensemble_dimensions_witness:
  "params_ok [Fin 0] [Fin 1] 1 \<and>
   simulate (\<lambda>s k. real k / 10) \<lparr>stream = (\<lambda>k. 0), pos = 7\<rparr> [Fin 0] [Fin 1] 100 2 2 1
     = Inr ([[Fin 100, Fin 110], [Fin 120, Fin 156]], \<lparr>stream = (\<lambda>k. real k / 10), pos = 4\<rparr>) \<and>
   portfolio_daily_returns
     (run_returns (seed (\<lambda>s k. real k / 10) 42 \<lparr>stream = (\<lambda>k. 0), pos = 7\<rparr>) [Fin 0] [Fin 1] 2 1 0)
     = [Fin 0, Fin (1 / 10)] \<and>
   portfolio_daily_returns
     (run_returns (seed (\<lambda>s k. real k / 10) 42 \<lparr>stream = (\<lambda>k. 0), pos = 7\<rparr>) [Fin 0] [Fin 1] 2 1 1)
     = [Fin (2 / 10), Fin (3 / 10)] \<and>
   length [[Fin 100, Fin 110], [Fin 120, Fin 156]] = 2 \<and>
   nrows [[Fin 100, Fin 110], [Fin 120, Fin 156]] = 2 \<and>
   list_all (list_all (fle (Fin 0))) [[Fin 100, Fin 110], [Fin 120, Fin 156]]"
proof -
  have ok: "params_ok [Fin 0] [Fin 1] 1"
    by (simp add: params_ok_def broadcast_def)
  have "\<exists>df g'. simulate (\<lambda>s k. real k / 10) \<lparr>stream = (\<lambda>k. 0), pos = 7\<rparr> [Fin 0] [Fin 1] 100 2 2 1
           = Inr (df, g') \<and> length df = 2 \<and> nrows df = 2 \<and> (\<forall>c \<in> set df. length c = 2) \<and>
           (0 < (100::int) \<and>
            (\<forall>r<2. \<forall>x \<in> set (portfolio_daily_returns (run_returns
                 (seed (\<lambda>s k. real k / 10) 42 \<lparr>stream = (\<lambda>k. 0), pos = 7\<rparr>) [Fin 0] [Fin 1] 2 1 r)).
                \<exists>y. x = Fin y \<and> - 1 + 1 / 2 ^ 53 \<le> y \<and> y \<le> 2 ^ 1024 - 2 ^ 971)
            \<longrightarrow> (\<forall>c \<in> set df. \<forall>v \<in> set c. fle (Fin 0) v))"
    by (rule ensemble_dimensions[OF ok]) simp_all
  with ok show ?thesis
    by (intro conjI demo_simulate demo_returns demo_returns_first) (simp_all add: nrows_def)
qed

text \<open>One asset of volatility zero: every draw of every run is the mean \<open>m\<close>.\<close>

lemma run_returns_constant:
  "run_returns g [Fin m] [Fin 0] H 1 r = replicate H [Fin m]"
  by (simp add: run_returns_def normal_def broadcast_def normal_cell_def map_replicate_const)

lemma run_path_constant:
  "run_path g [Fin m] [Fin 0] V0 H 1 = (\<lambda>r. portfolio_path (Fin (real_of_int V0)) (replicate H (Fin m)))"
  unfolding run_path_def run_returns_constant
  by (simp add: portfolio_daily_returns_def row_mean_def fsum_def)

lemma simulate_constant:
  "simulate G g0 [Fin m] [Fin 0] V0 H R 1 =
     Inr (replicate R (portfolio_path (Fin (real_of_int V0)) (replicate H (Fin m))),
          \<lparr>stream = G 42, pos = R * H\<rparr>)"
  unfolding simulate_cases run_path_constant
  by (simp add: params_ok_def broadcast_def map_replicate_const advance_def seed_eq)

lemma portfolio_path_PInf:
  "0 < f \<Longrightarrow> binary64 (fadd (Fin 1) (Fin m)) = Fin f \<Longrightarrow>
   portfolio_path PInf (replicate k (Fin m)) = replicate k PInf"
  by (induction k) (simp_all add: Let_def signed_inf_def del: binary64.simps(1))

lemma overflow_path:
  "portfolio_path (Fin 4) (replicate (Suc k) (Fin (2 ^ 1023))) = replicate (Suc k) PInf"
proof -
  have f: "binary64 (fadd (Fin 1) (Fin (2 ^ 1023))) = Fin (1 + 2 ^ 1023)" by simp
  have first: "binary64 (fmul (Fin 4) (Fin (1 + 2 ^ 1023))) = PInf" by simp
  have "(0::real) < 1 + 2 ^ 1023" by simp
  from portfolio_path_PInf[OF this f, of k] show ?thesis
    unfolding replicate_Suc portfolio_path.simps Let_def f first by simp
qed

text \<open>One asset of volatility zero and mean \<open>-1 + 2 ^ - 53\<close>, the least double above \<open>-1\<close>:
  each day multiplies the value by \<open>2 ^ - 53\<close>.\<close>

lemma shrink_factor: "binary64 (fadd (Fin 1) (Fin (- 1 + 1 / 2 ^ 53))) = Fin (1 / 2 ^ 53)"
  by simp

lemma shrink_step:
  assumes "53 * Suc n \<le> 1074"
  shows "binary64 (fmul (Fin (1 / 2 ^ (53 * n))) (Fin (1 / 2 ^ 53))) = Fin (1 / 2 ^ (53 * Suc n))"
proof -
  let ?a = "(1::real) / 2 ^ (53 * Suc n)"
  have prod: "1 / 2 ^ (53 * n) * (1 / 2 ^ 53) = ?a" by (simp add: power_add)
  have pos: "0 < ?a" by simp
  have "(1::real) \<le> 2 ^ (53 * Suc n)" by (rule one_le_power) simp
  then have le1: "?a \<le> 1" by (simp add: field_simps)
  from assms have "53 * Suc n < 1075" by simp
  then have "(2::real) ^ (53 * Suc n) < 2 ^ 1075" by (rule power_strict_increasing) simp
  then have "(1::real) / 2 ^ 1075 < ?a" by (simp add: field_simps del: power_strict_increasing_iff)
  with pos have small: "\<not> \<bar>?a\<bar> \<le> 1 / 2 ^ 1075" by linarith
  have "(1::real) < 2 ^ 1024 - 2 ^ 970" by simp
  with le1 have big: "\<not> 2 ^ 1024 - 2 ^ 970 \<le> ?a" by linarith
  have "(0::real) < 2 ^ 1024 - 2 ^ 970" by simp
  with pos have neg: "\<not> ?a \<le> - (2 ^ 1024 - 2 ^ 970)" by linarith
  have "binary64 (Fin ?a) = Fin ?a"
    unfolding binary64.simps using small big neg by (simp only: if_False)
  then show ?thesis unfolding fmul.simps prod .
qed

lemma replicate_snoc: "replicate (Suc n) x = replicate n x @ [x]"
  by (simp only: replicate_append_same replicate.simps)

lemma shrink_fold:
  "53 * n \<le> 1074 \<Longrightarrow>
   foldl (\<lambda>c x. binary64 (fmul c (binary64 (fadd (Fin 1) x)))) (Fin 1)
     (replicate n (Fin (- 1 + 1 / 2 ^ 53))) = Fin (1 / 2 ^ (53 * n))"
proof (induction n)
  case 0
  show ?case by simp
next
  case (Suc n)
  from Suc.prems have "53 * n \<le> 1074" by simp
  note IH = Suc.IH[OF this]
  show ?case
    unfolding replicate_snoc foldl_append IH
    by (simp only: foldl.simps shrink_factor shrink_step[OF Suc.prems])
qed

lemma underflow_value:
  "foldl (\<lambda>c x. binary64 (fmul c (binary64 (fadd (Fin 1) x)))) (Fin 1)
     (replicate 21 (Fin (- 1 + 1 / 2 ^ 53))) = Fin 0"
proof -
  have twenty: "foldl (\<lambda>c x. binary64 (fmul c (binary64 (fadd (Fin 1) x)))) (Fin 1)
     (replicate 20 (Fin (- 1 + 1 / 2 ^ 53))) = Fin (1 / 2 ^ (53 * 20))"
    by (rule shrink_fold) simp
  have last: "binary64 (fmul (Fin (1 / 2 ^ (53 * 20))) (Fin (1 / 2 ^ 53))) = Fin 0"
    by simp
  have e: "(21::nat) = Suc 20" by simp
  show ?thesis
    unfolding e replicate_snoc foldl_append twenty
    by (simp only: foldl.simps shrink_factor last)
qed

text \<open>
  Claim C5 as stated fails, with the script's horizon of 252 days and 10000 runs, on one
  asset of volatility zero. With the mean \<open>2 ^ 1023\<close> and an investment of 4 the first
  product is beyond the largest double: every value of the ensemble is plus infinity,
  not finite. With the mean \<open>-1 + 2 ^ - 53\<close>, a daily return above \<open>-1\<close>, and an investment
  of 1 the value of day 20 is \<open>2 ^ - 1113\<close>, below half of the smallest double: it is zero,
  not strictly positive.
\<close>

theorem ensemble_values_counterexample:
  "simulate (\<lambda>s k. real k / 10) \<lparr>stream = (\<lambda>k. 0), pos = 7\<rparr> [Fin (2 ^ 1023)] [Fin 0] 4 252 10000 1
     = Inr (replicate 10000 (replicate 252 PInf),
            \<lparr>stream = (\<lambda>k. real k / 10), pos = 10000 * 252\<rparr>) \<and>
   simulate (\<lambda>s k. real k / 10) \<lparr>stream = (\<lambda>k. 0), pos = 7\<rparr> [Fin (- 1 + 1 / 2 ^ 53)] [Fin 0] 1 252 10000 1
     = Inr (replicate 10000 (portfolio_path (Fin 1) (replicate 252 (Fin (- 1 + 1 / 2 ^ 53)))),
            \<lparr>stream = (\<lambda>k. real k / 10), pos = 10000 * 252\<rparr>) \<and>
   portfolio_daily_returns
     (run_returns (seed (\<lambda>s k. real k / 10) 42 \<lparr>stream = (\<lambda>k. 0), pos = 7\<rparr>)
        [Fin (- 1 + 1 / 2 ^ 53)] [Fin 0] 252 1 0)
     = replicate 252 (Fin (- 1 + 1 / 2 ^ 53)) \<and>
   flt (Fin (- 1)) (Fin (- 1 + 1 / 2 ^ 53)) \<and>
   portfolio_path (Fin 1) (replicate 252 (Fin (- 1 + 1 / 2 ^ 53))) ! 20 = Fin 0 \<and>
   \<not> flt (Fin 0) (Fin 0)"
proof -
  have big: "(252::nat) = Suc 251" by simp
  have over: "simulate (\<lambda>s k. real k / 10) \<lparr>stream = (\<lambda>k. 0), pos = 7\<rparr> [Fin (2 ^ 1023)] [Fin 0] 4 252 10000 1
     = Inr (replicate 10000 (replicate 252 PInf),
            \<lparr>stream = (\<lambda>k. real k / 10), pos = 10000 * 252\<rparr>)"
    unfolding simulate_constant big using overflow_path[of 251] by simp
  have under: "simulate (\<lambda>s k. real k / 10) \<lparr>stream = (\<lambda>k. 0), pos = 7\<rparr> [Fin (- 1 + 1 / 2 ^ 53)] [Fin 0] 1 252 10000 1
     = Inr (replicate 10000 (portfolio_path (Fin 1) (replicate 252 (Fin (- 1 + 1 / 2 ^ 53)))),
            \<lparr>stream = (\<lambda>k. real k / 10), pos = 10000 * 252\<rparr>)"
    unfolding simulate_constant by simp
  have daily: "portfolio_daily_returns
     (run_returns (seed (\<lambda>s k. real k / 10) 42 \<lparr>stream = (\<lambda>k. 0), pos = 7\<rparr>)
        [Fin (- 1 + 1 / 2 ^ 53)] [Fin 0] 252 1 0)
     = replicate 252 (Fin (- 1 + 1 / 2 ^ 53))"
    unfolding run_returns_constant by (simp add: portfolio_daily_returns_def row_mean_def fsum_def)
  have above: "flt (Fin (- 1)) (Fin (- 1 + 1 / 2 ^ 53))" by simp
  have "(20::nat) < length (replicate 252 (Fin (- 1 + 1 / 2 ^ 53)))" by simp
  from portfolio_path_foldl[OF this, of "Fin 1"]
  have "portfolio_path (Fin 1) (replicate 252 (Fin (- 1 + 1 / 2 ^ 53))) ! 20 =
          foldl (\<lambda>c x. binary64 (fmul c (binary64 (fadd (Fin 1) x)))) (Fin 1)
            (take (Suc 20) (replicate 252 (Fin (- 1 + 1 / 2 ^ 53))))" .
  also have "take (Suc 20) (replicate 252 (Fin (- 1 + 1 / 2 ^ 53))) = replicate 21 (Fin (- 1 + 1 / 2 ^ 53))"
    by (simp only: take_replicate) simp
  finally have zero: "portfolio_path (Fin 1) (replicate 252 (Fin (- 1 + 1 / 2 ^ 53))) ! 20 = Fin 0"
    by (simp only: underflow_value)
  have "\<not> flt (Fin 0) (Fin 0)" by simp
  with over under daily above zero show ?thesis by blast
qed

section \<open>The risk metrics\<close>

lemma var_sign_loss: "flt p (Fin v) \<Longrightarrow> flt (Fin 0) (fsub (Fin v) p)"
  by (cases p) (simp_all add: fsub_def)

lemma var_sign_gain: "fle (Fin v) p \<Longrightarrow> fle (fsub (Fin v) p) (Fin 0) \<and> \<not> flt (Fin 0) (fsub (Fin v) p)"
  by (cases p) (simp_all add: fsub_def)

text \<open>
  Claim C3. The reported VaR is the initial investment minus the 5th percentile of the
  ensemble's last row. When the percentile is below the initial investment, the VaR is
  above zero and the loss branch is taken, showing the VaR; when the percentile is at
  least the initial investment, the VaR is at most zero and the gain branch is taken,
  showing its absolute value.
\<close>

theorem var_classification:
  assumes "risk_summary df V0 = Inr m"
  shows "\<exists>ending_values. iloc_last df = Inr ending_values \<and>
           future_value_95 m = percentile ending_values 5 \<and>
           VaR_95 m = fsub (Fin (real_of_int V0)) (future_value_95 m) \<and>
           (flt (future_value_95 m) (Fin (real_of_int V0)) \<longrightarrow>
              flt (Fin 0) (VaR_95 m) \<and> verdict m = Loss (VaR_95 m)) \<and>
           (fle (Fin (real_of_int V0)) (future_value_95 m) \<longrightarrow>
              fle (VaR_95 m) (Fin 0) \<and> verdict m = Gain (fabs (VaR_95 m)))"
proof -
  from assms obtain ev where ev: "iloc_last df = Inr ev"
    by (auto simp: risk_summary_def split: sum.splits)
  let ?p = "percentile ev 5"
  let ?v = "fsub (Fin (real_of_int V0)) ?p"
  from assms ev have m: "m = \<lparr>future_value_95 = ?p, VaR_95 = ?v, verdict = classify ?v\<rparr>"
    by (simp add: risk_summary_def Let_def)
  have loss: "flt (Fin 0) ?v \<and> classify ?v = Loss ?v" if "flt ?p (Fin (real_of_int V0))"
    using var_sign_loss[OF that] by (simp add: classify_def)
  have gain: "fle ?v (Fin 0) \<and> classify ?v = Gain (fabs ?v)" if "fle (Fin (real_of_int V0)) ?p"
    using var_sign_gain[OF that] by (simp add: classify_def)
  from ev loss gain show ?thesis by (simp add: m)
qed

lemma demo_risk:
  "risk_summary [[Fin 100, Fin 110], [Fin 120, Fin 156]] 100
     = Inr \<lparr>future_value_95 = Fin (1123 / 10), VaR_95 = Fin (- 123 / 10), verdict = Gain (Fin (123 / 10))\<rparr>"
  by (simp add: risk_summary_def iloc_last_def nrows_def percentile_def fsort_def lerp_def
      classify_def fsub_def Let_def)

lemma demo_risk_loss:
  "risk_summary [[Fin 100, Fin 110], [Fin 120, Fin 156]] 200
     = Inr \<lparr>future_value_95 = Fin (1123 / 10), VaR_95 = Fin (877 / 10), verdict = Loss (Fin (877 / 10))\<rparr>"
  by (simp add: risk_summary_def iloc_last_def nrows_def percentile_def fsort_def lerp_def
      classify_def fsub_def Let_def)

text \<open>The last row 110, 156 has the 5th percentile 112.3: a gain of 12.3 on an investment
  of 100, a loss of 87.7 on an investment of 200.\<close>

theorem var_classification_witness:
  "risk_summary [[Fin 100, Fin 110], [Fin 120, Fin 156]] 100
     = Inr \<lparr>future_value_95 = Fin (1123 / 10), VaR_95 = Fin (- 123 / 10), verdict = Gain (Fin (123 / 10))\<rparr>
   \<and> fle (Fin (real_of_int 100)) (Fin (1123 / 10))
   \<and> fle (Fin (- 123 / 10)) (Fin 0)
   \<and> risk_summary [[Fin 100, Fin 110], [Fin 120, Fin 156]] 200
     = Inr \<lparr>future_value_95 = Fin (1123 / 10), VaR_95 = Fin (877 / 10), verdict = Loss (Fin (877 / 10))\<rparr>
   \<and> flt (Fin (1123 / 10)) (Fin (real_of_int 200))
   \<and> flt (Fin 0) (Fin (877 / 10))"
  using var_classification[OF demo_risk] var_classification[OF demo_risk_loss]
  by (intro conjI demo_risk demo_risk_loss) simp_all

section \<open>The 5th percentile\<close>

lemma finsort_Fin: "finsort (Fin x) (map Fin ys) = map Fin (insort x ys)"
  by (induction ys) simp_all

lemma fsort_Fin: "fsort (map Fin xs) = map Fin (sort xs)"
  unfolding fsort_def sort_key_def by (induction xs) (simp_all add: finsort_Fin)

lemma no_nan_Fin: "\<not> list_ex isnan (map Fin xs)"
  by (simp add: list_ex_iff)

lemma lerp_Fin: "lerp (Fin a) (Fin b) t = Fin (a + (b - a) * t)"
  by (simp add: lerp_def fsub_def algebra_simps)

lemma p5_index_bound:
  assumes "0 < n"
  shows "nat \<lfloor>(real n - 1) * (5 / 100)\<rfloor> < n"
proof -
  have "(real n - 1) * (5 / 100) \<le> real n - 1" using assms by simp
  then have "\<lfloor>(real n - 1) * (5 / 100)\<rfloor> \<le> int n - 1" by linarith
  with assms show ?thesis by linarith
qed

lemma p5_next_index:
  assumes n: "0 < n"
  defines "rank \<equiv> (real n - 1) * (5 / 100)"
  assumes frac: "rank \<noteq> of_int \<lfloor>rank\<rfloor>"
  shows "min (nat \<lfloor>rank\<rfloor> + 1) (n - 1) = nat \<lceil>rank\<rceil>"
proof -
  have r0: "0 \<le> rank" using n by (simp add: rank_def)
  have "n \<noteq> 1" using frac by (auto simp: rank_def)
  with n have "rank < real n - 1" by (simp add: rank_def)
  then have "\<lfloor>rank\<rfloor> < int n - 1" by linarith
  moreover have "0 \<le> \<lfloor>rank\<rfloor>" using r0 by simp
  moreover have "\<lceil>rank\<rceil> = \<lfloor>rank\<rfloor> + 1"
    using frac by (simp add: ceiling_altdef)
  ultimately show ?thesis by (simp add: min_def) linarith
qed

text \<open>
  Claim C2. On a sample of finite ending values that is not empty, the percentile that
  line 130 computes is the interpolation the specification describes: with the rank
  \<open>0.05 * (R - 1)\<close>, the value between the sorted values at the floor and at the ceiling
  of the rank.
\<close>

theorem percentile_linear:
  assumes "xs \<noteq> []"
  shows "percentile (map Fin xs) 5 = Fin (interpolated_p5 xs)"
proof -
  define n where "n = length xs"
  define rank where "rank = (real n - 1) * (5 / 100)"
  define lo where "lo = nat \<lfloor>rank\<rfloor>"
  define nx where "nx = min (lo + 1) (n - 1)"
  define s where "s = sort xs"
  from assms have n: "0 < n" by (simp add: n_def)
  have lo: "lo < n" unfolding lo_def rank_def by (rule p5_index_bound[OF n])
  have "nx \<le> n - 1" unfolding nx_def by (rule min.cobounded2)
  with n have nx: "nx < n" by linarith
  have r0: "0 \<le> rank" using n by (simp add: rank_def)
  have "percentile (map Fin xs) 5 = lerp (map Fin s ! lo) (map Fin s ! nx) (rank - real lo)"
    unfolding percentile_def Let_def s_def nx_def lo_def rank_def n_def
    by (simp add: no_nan_Fin fsort_Fin)
  also have "\<dots> = Fin (s ! lo + (s ! nx - s ! lo) * (rank - real lo))"
    using lo nx by (simp add: lerp_Fin s_def n_def)
  finally have code: "percentile (map Fin xs) 5 = Fin (s ! lo + (s ! nx - s ! lo) * (rank - real lo))" .
  have spec: "interpolated_p5 xs = s ! lo + (rank - real lo) * (s ! nat \<lceil>rank\<rceil> - s ! lo)"
    unfolding interpolated_p5_def Let_def s_def lo_def rank_def n_def by simp
  show ?thesis
  proof (cases "rank = of_int \<lfloor>rank\<rfloor>")
    case True
    have "real lo = of_int \<lfloor>rank\<rfloor>" using r0 by (simp add: lo_def)
    with True have "rank - real lo = 0" by simp
    then show ?thesis unfolding code spec by simp
  next
    case False
    then have "nx = nat \<lceil>rank\<rceil>"
      unfolding nx_def lo_def rank_def by (rule p5_next_index[OF n])
    then show ?thesis unfolding code spec by (simp add: mult.commute)
  qed
qed

lemma sorted_reals_upt: "sorted (map real [a..<b])"
  by (simp add: sorted_map)

text \<open>The hundred values 1, 2, \<dots>, 100: the rank is 4.95 and the percentile is 5.95.\<close>

theorem percentile_linear_witness:
  "map real [1..<101] \<noteq> [] \<and> percentile (map Fin (map real [1..<101])) 5 = Fin (595 / 100)"
proof -
  have ne: "map real [1..<101] \<noteq> []" by simp
  have "sort (map real [1..<101]) = map real [1..<101]"
    using sorted_reals_upt[of 1 101] by (simp add: sort_key_id_if_sorted)
  then have "interpolated_p5 (map real [1..<101]) = 595 / 100"
    by (simp add: interpolated_p5_def Let_def)
  with percentile_linear[OF ne] ne show ?thesis by simp
qed


section \<open>The return statistics\<close>

lemma filter_nan_Fin: "filter (\<lambda>x. \<not> isnan x) (map Fin xs) = map Fin xs"
  by (induction xs) simp_all

lemma fsum_Fin: "fsum (map Fin xs) = Fin (sum_list xs)"
  by (simp add: fsum_def foldl_fadd_Fin)

lemma series_mean_Fin:
  assumes "xs \<noteq> []"
  shows "series_mean (map Fin xs) = Fin (arithmetic_mean xs)"
  using assms by (simp add: series_mean_def filter_nan_Fin fsum_Fin arithmetic_mean_def)

lemma squared_deviations_nonneg: "0 \<le> squared_deviations xs"
  unfolding squared_deviations_def by (rule sum_list_nonneg) auto

lemma series_var_Fin:
  assumes "ddof < length xs"
  shows "series_var ddof (map Fin xs) = Fin (squared_deviations xs / (real (length xs) - real ddof))"
proof -
  from assms have ne: "xs \<noteq> []" by auto
  define m where "m = arithmetic_mean xs"
  have avg: "fdiv (fsum (map Fin xs)) (Fin (real (length xs))) = Fin m"
    using ne by (simp add: fsum_Fin m_def arithmetic_mean_def)
  have sqr: "map (\<lambda>x. fmul (fsub (Fin m) x) (fsub (Fin m) x)) (map Fin xs)
               = map Fin (map (\<lambda>x. (x - m)\<^sup>2) xs)"
    by (simp add: fsub_def power2_eq_square algebra_simps)
  have d: "real (length xs - ddof) = real (length xs) - real ddof"
    using assms by (simp add: of_nat_diff)
  have nz: "real (length xs) - real ddof \<noteq> 0" using assms by simp
  have c: "\<not> length xs \<le> ddof" using assms by simp
  have "series_var ddof (map Fin xs) =
          fdiv (fsum (map (\<lambda>x. fmul (fsub (Fin m) x) (fsub (Fin m) x)) (map Fin xs)))
               (Fin (real (length xs - ddof)))"
    unfolding series_var_def Let_def filter_nan_Fin length_map avg using c by (simp only: if_False)
  also have "\<dots> = fdiv (Fin (squared_deviations xs)) (Fin (real (length xs) - real ddof))"
    unfolding sqr fsum_Fin d unfolding squared_deviations_def m_def ..
  also have "\<dots> = Fin (squared_deviations xs / (real (length xs) - real ddof))"
    using nz by simp
  finally show ?thesis .
qed

text \<open>
  Claim C9. For a series of at least two finite returns, the mean passed to the simulation
  is the arithmetic mean of the series and the volatility is the standard deviation with
  the divisor \<open>n - 1\<close>; both are functions of the series alone.
\<close>

theorem return_statistics:
  assumes "2 \<le> length xs"
  shows "series_mean (map Fin xs) = Fin (arithmetic_mean xs) \<and>
         series_std (map Fin xs) = Fin (sample_std xs)"
proof -
  from assms have ne: "xs \<noteq> []" and one: "1 < length xs" by auto
  have "0 \<le> squared_deviations xs / (real (length xs) - 1)"
    using one squared_deviations_nonneg[of xs] by simp
  then have "series_std (map Fin xs) = Fin (sample_std xs)"
    using series_var_Fin[OF one] by (simp add: series_std_def sample_std_def)
  with series_mean_Fin[OF ne] show ?thesis by simp
qed

text \<open>The series 1, 3 has the mean 2 and the sample standard deviation \<open>sqrt 2\<close>; its
  population standard deviation is 1.\<close>

theorem return_statistics_witness:
  "2 \<le> length [1, 3 :: real] \<and>
   series_mean [Fin 1, Fin 3] = Fin 2 \<and>
   series_std [Fin 1, Fin 3] = Fin (sqrt 2) \<and>
   population_std [1, 3] = 1 \<and> sqrt 2 \<noteq> (1 :: real)"
proof -
  have len: "2 \<le> length [1, 3 :: real]" by simp
  have m: "arithmetic_mean [1, 3] = 2" by (simp add: arithmetic_mean_def)
  have sq: "squared_deviations [1, 3] = 2" by (simp add: squared_deviations_def m)
  have s: "sample_std [1, 3] = sqrt 2" by (simp add: sample_std_def sq)
  have p: "population_std [1, 3] = 1" by (simp add: population_std_def sq)
  from return_statistics[OF len] m s p len show ?thesis by simp
qed


section \<open>The daily returns\<close>

lemma ffill_from_no_nan: "list_all (\<lambda>x. \<not> isnan x) c \<Longrightarrow> ffill_from seen c = c"
  by (induction c arbitrary: seen) simp_all

lemma length_pct_from: "length (pct_from prev c) = length c"
  by (induction c arbitrary: prev) simp_all

lemma pct_from_nth:
  "t < length c \<Longrightarrow>
   pct_from prev c ! t = fsub (fdiv (c ! t) (if t = 0 then prev else c ! (t - 1))) (Fin 1)"
proof (induction c arbitrary: prev t)
  case Nil then show ?case by simp
next
  case (Cons x xs)
  show ?case
  proof (cases t)
    case 0 then show ?thesis by simp
  next
    case (Suc u)
    with Cons.prems have "u < length xs" by simp
    from Cons.IH[OF this, of x] Suc show ?thesis by (cases u) simp_all
  qed
qed

lemma nrows_map_length:
  "(\<And>c. length (f c) = length c) \<Longrightarrow> nrows (map f df) = nrows df"
  by (cases df) (simp_all add: nrows_def)

text \<open>A table of prices that are all present and not zero: the frame of a list of columns
  of non-zero real numbers.\<close>

lemma returns_of_prices:
  fixes prices :: "real list list"
  assumes wf: "wf_frame (map (map Fin) prices)"
    and nz: "\<forall>c \<in> set prices. \<forall>p \<in> set c. p \<noteq> 0"
    and D: "1 \<le> nrows (map (map Fin) prices)"
  defines "D \<equiv> nrows (map (map Fin) prices)"
  shows "ffill (map (map Fin) prices) = map (map Fin) prices"
    and "kept_rows (pct_change (map (map Fin) prices)) = [1..<D]"
    and "daily_returns (map (map Fin) prices)
           = map (\<lambda>c. map (\<lambda>t. Fin (c ! t / c ! (t - 1) - 1)) [1..<D]) prices"
proof -
  let ?data = "map (map Fin) prices"
  let ?pc = "pct_change ?data"
  show "ffill ?data = ?data"
    by (simp add: ffill_def ffill_from_no_nan list_all_iff cong: map_cong)
  have len: "length c = D" if "c \<in> set prices" for c
    using wf that by (auto simp: wf_frame_def list_all_iff D_def)
  from D have ne: "prices \<noteq> []" by (auto simp: nrows_def)
  have rows: "nrows ?pc = D"
    unfolding pct_change_def D_def by (rule nrows_map_length) (rule length_pct_from)
  have cell0: "isnan (pct_from NaN (map Fin c) ! 0)" if "c \<in> set prices" for c
    using len[OF that] D by (simp add: pct_from_nth fsub_def D_def[symmetric])
  have cell: "pct_from NaN (map Fin c) ! t = Fin (c ! t / c ! (t - 1) - 1)"
    if "c \<in> set prices" "1 \<le> t" "t < D" for c t
  proof -
    have "c ! (t - 1) \<in> set c" using that len[OF that(1)] by simp
    with nz that(1) have "c ! (t - 1) \<noteq> 0" by blast
    then show ?thesis using that len[OF that(1)] by (simp add: pct_from_nth fsub_def)
  qed
  have na0: "row_has_na ?pc 0"
    using ne cell0 by (cases prices) (auto simp: row_has_na_def pct_change_def list_ex_iff)
  have na: "\<not> row_has_na ?pc t" if "1 \<le> t" "t < D" for t
    using cell[OF _ that] by (auto simp: row_has_na_def pct_change_def list_ex_iff)
  have "[0..<D] = 0 # [1..<D]" using D by (simp add: upt_conv_Cons D_def[symmetric])
  then show kept: "kept_rows ?pc = [1..<D]"
    using na0 na by (simp add: kept_rows_def rows)
  show "daily_returns ?data = map (\<lambda>c. map (\<lambda>t. Fin (c ! t / c ! (t - 1) - 1)) [1..<D]) prices"
    unfolding daily_returns_def dropna_def kept
    by (simp add: pct_change_def cell cong: map_cong)
qed


text \<open>
  Claim C8, amended. For a table of \<open>D \<ge> 1\<close> trading days in which every price is present
  and not zero, the forward fill changes nothing, the return of each day after the first
  is \<open>price t / price (t - 1) - 1\<close>, the first day is the only one dropped, and the return
  series of each asset has \<open>D - 1\<close> entries.
\<close>

theorem daily_returns_of_prices:
  fixes prices :: "real list list"
  assumes "wf_frame (map (map Fin) prices)"
    and "\<forall>c \<in> set prices. \<forall>p \<in> set c. p \<noteq> 0"
    and "1 \<le> nrows (map (map Fin) prices)"
  shows "ffill (map (map Fin) prices) = map (map Fin) prices \<and>
         daily_returns (ffill (map (map Fin) prices))
           = map (\<lambda>c. map (\<lambda>t. Fin (c ! t / c ! (t - 1) - 1)) [1..<nrows (map (map Fin) prices)]) prices \<and>
         kept_rows (pct_change (ffill (map (map Fin) prices))) = [1..<nrows (map (map Fin) prices)] \<and>
         (\<forall>c \<in> set (daily_returns (ffill (map (map Fin) prices))).
            Suc (length c) = nrows (map (map Fin) prices))"
proof -
  note r = returns_of_prices[OF assms]
  have "\<forall>c \<in> set (daily_returns (ffill (map (map Fin) prices))).
            Suc (length c) = nrows (map (map Fin) prices)"
    unfolding r using assms(3) by auto
  with r show ?thesis by simp
qed

text \<open>Two assets over three days.\<close>

theorem daily_returns_of_prices_witness:
  "wf_frame (map (map Fin) [[1, 2, 3], [4, 2, 1]]) \<and>
   nrows (map (map Fin) [[1, 2, 3], [4, 2, 1]]) = 3 \<and>
   daily_returns (ffill (map (map Fin) [[1, 2, 3], [4, 2, 1]]))
     = [[Fin 1, Fin (1 / 2)], [Fin (- 1 / 2), Fin (- 1 / 2)]]"
proof -
  have wf: "wf_frame (map (map Fin) [[1, 2, 3], [4, 2, 1]])"
    by (simp add: wf_frame_def nrows_def)
  have nz: "\<forall>c \<in> set [[1, 2, 3], [4, 2, 1 :: real]]. \<forall>p \<in> set c. p \<noteq> 0"
    by simp
  have D: "nrows (map (map Fin) [[1, 2, 3], [4, 2, 1]]) = 3"
    by (simp add: nrows_def)
  then have D1: "1 \<le> nrows (map (map Fin) [[1, 2, 3], [4, 2, 1]])" by simp
  have "[1..<3] = [1, 2 :: nat]" by (simp add: upt_rec)
  with daily_returns_of_prices[OF wf nz D1] wf D show ?thesis
    by (elim conjE) simp
qed

text \<open>
  Claim C8 as stated fails on a forward-filled table whose second asset has no price on
  the first day (the fill has nothing to carry forward): the second day is dropped too,
  and each return series has one entry for three trading days. It fails as well on a
  table without gaps in which a zero price follows a zero price.
\<close>

theorem daily_returns_counterexample:
  "ffill [[Fin 1, Fin 2, Fin 3], [NaN, Fin 1, Fin 2]] = [[Fin 1, Fin 2, Fin 3], [NaN, Fin 1, Fin 2]] \<and>
   nrows [[Fin 1, Fin 2, Fin 3], [NaN, Fin 1, Fin 2]] = 3 \<and>
   daily_returns [[Fin 1, Fin 2, Fin 3], [NaN, Fin 1, Fin 2]] = [[Fin (1 / 2)], [Fin 1]] \<and>
   ffill [[Fin 0, Fin 0, Fin 5]] = [[Fin 0, Fin 0, Fin 5]] \<and>
   daily_returns [[Fin 0, Fin 0, Fin 5]] = [[PInf]]"
  by (simp add: ffill_def nrows_def daily_returns_def dropna_def kept_rows_def row_has_na_def
      pct_change_def fsub_def signed_inf_def upt_rec)


section \<open>No validation of the configuration or of the history\<close>

lemma length_ffill_from: "length (ffill_from seen c) = length c"
  by (induction c arbitrary: seen) simp_all

lemma nrows_ffill: "nrows (ffill df) = nrows df"
  unfolding ffill_def by (rule nrows_map_length) (rule length_ffill_from)

lemma length_daily_returns: "length (daily_returns df) = length df"
  by (simp add: daily_returns_def dropna_def pct_change_def)

lemma nrows_dropna: "df \<noteq> [] \<Longrightarrow> nrows (dropna df) = length (kept_rows df)"
  by (cases df) (simp_all add: nrows_def dropna_def)

lemma dropna_column_length: "c \<in> set (dropna df) \<Longrightarrow> length c = length (kept_rows df)"
  by (auto simp: dropna_def)

lemma short_series_std:
  assumes "length c < 2"
  shows "series_std c = NaN"
proof -
  have "length (filter (\<lambda>x. \<not> isnan x) c) \<le> length c" by (rule length_filter_le)
  with assms have "length (filter (\<lambda>x. \<not> isnan x) c) \<le> 1" by linarith
  then show ?thesis by (simp add: series_std_def series_var_def Let_def)
qed

lemma short_history_vol:
  assumes "nrows (daily_returns df) < 2"
  shows "map series_std (daily_returns df) = replicate (length df) NaN"
proof (cases "df = []")
  case True
  then show ?thesis by (simp add: daily_returns_def dropna_def pct_change_def)
next
  case False
  then have ne: "pct_change df \<noteq> []" by (simp add: pct_change_def)
  have "series_std c = NaN" if "c \<in> set (daily_returns df)" for c
  proof -
    from that have "length c = length (kept_rows (pct_change df))"
      unfolding daily_returns_def by (rule dropna_column_length)
    also have "\<dots> = nrows (daily_returns df)"
      unfolding daily_returns_def by (rule nrows_dropna[OF ne, symmetric])
    finally show ?thesis using assms by (intro short_series_std) simp
  qed
  then have "map series_std (daily_returns df) = map (\<lambda>c. NaN) (daily_returns df)"
    by (intro map_cong) simp_all
  then show ?thesis by (simp add: map_replicate_const length_daily_returns)
qed

lemma fadd_NaN_right: "fadd x NaN = NaN"
  by (cases x) simp_all

lemma fmul_NaN_right: "fmul x NaN = NaN"
  by (cases x) simp_all

lemma foldl_fadd_NaN: "foldl fadd NaN xs = NaN"
  by (induction xs) simp_all

lemma row_mean_NaN: "row_mean (replicate (Suc k) NaN) = NaN"
  by (simp add: row_mean_def fsum_def fadd_NaN_right foldl_fadd_NaN)

lemma portfolio_path_NaN: "portfolio_path v (replicate k NaN) = replicate k NaN"
  by (induction k arbitrary: v) (simp_all add: Let_def fadd_NaN_right fmul_NaN_right)

lemma params_ok_NaN: "length loc = T \<Longrightarrow> params_ok loc (replicate T NaN) T"
  by (simp add: params_ok_def broadcast_def list_ex_iff)

lemma run_returns_NaN:
  assumes "length loc = T"
  shows "run_returns g loc (replicate T NaN) H T r = replicate H (replicate T NaN)"
proof -
  have ok: "params_ok loc (replicate T NaN) T" by (rule params_ok_NaN[OF assms])
  have b: "broadcast loc T = Some loc" "broadcast (replicate T NaN) T = Some (replicate T NaN)"
    using assms by (simp_all add: broadcast_def)
  have "run_returns g loc (replicate T NaN) H T r ! t = replicate T NaN" if t: "t < H" for t
  proof (rule replicate_eqI)
    show "length (run_returns g loc (replicate T NaN) H T r ! t) = T"
      by (rule length_run_returns_row[OF ok t])
  next
    fix y assume "y \<in> set (run_returns g loc (replicate T NaN) H T r ! t)"
    then obtain n where "n < T" and "y = run_returns g loc (replicate T NaN) H T r ! t ! n"
      by (auto simp: in_set_conv_nth length_run_returns_row[OF ok t])
    then show "y = NaN"
      by (simp add: run_returns_cell[OF ok b t] fadd_NaN_right)
  qed
  then show ?thesis
    by (intro replicate_eqI) (auto simp: length_run_returns[OF ok] in_set_conv_nth)
qed

lemma run_path_NaN:
  assumes "length loc = T" "0 < T"
  shows "run_path g loc (replicate T NaN) V0 H T r = replicate H NaN"
proof -
  from assms(2) obtain k where "T = Suc k" by (cases T) simp_all
  then have "row_mean (replicate T NaN) = NaN" by (simp only: row_mean_NaN)
  then show ?thesis
    by (simp add: run_path_def run_returns_NaN[OF assms(1)] portfolio_daily_returns_def
        portfolio_path_NaN)
qed

lemma simulate_NaN:
  assumes "length loc = T" "0 < T"
  shows "simulate G g0 loc (replicate T NaN) V0 H R T =
           Inr (replicate R (replicate H NaN), advance (seed G 42 g0) (R * (H * T)))"
proof -
  have "run_path (seed G 42 g0) loc (replicate T NaN) V0 H T = (\<lambda>r. replicate H NaN)"
    by (rule ext) (rule run_path_NaN[OF assms])
  then show ?thesis
    by (simp add: simulate_cases params_ok_NaN[OF assms(1)] map_replicate_const)
qed

lemma risk_summary_NaN:
  assumes "0 < H" "0 < R"
  shows "risk_summary (replicate R (replicate H NaN)) V0 =
           Inr \<lparr>future_value_95 = NaN, VaR_95 = NaN, verdict = Gain NaN\<rparr>"
proof -
  from assms obtain h r where "H = Suc h" "R = Suc r" by (cases H; cases R) simp_all
  then show ?thesis
    by (simp add: risk_summary_def iloc_last_def nrows_def percentile_def fsub_def classify_def)
qed

lemma iloc_last_no_runs: "iloc_last [] = Inl IndexError"
  by (simp add: iloc_last_def nrows_def)

lemma iloc_last_no_days: "iloc_last (map (\<lambda>r. []) [0..<R]) = Inl IndexError"
  by (cases R) (simp_all add: iloc_last_def nrows_def upt_conv_Cons del: upt_Suc)

lemma run_path_no_days: "run_path g loc scale V0 0 T = (\<lambda>r. [])"
  by (rule ext)
    (simp add: run_path_def run_returns_def normal_def portfolio_daily_returns_def
      split: option.splits)

lemma analysis_unfold:
  "analysis G g0 data tickers V0 H R =
     (case iloc_last (ffill data) of
        Inl e \<Rightarrow> Inl e
      | Inr last_prices \<Rightarrow>
          (case simulate G g0 (map series_mean (daily_returns (ffill data)))
                  (map series_std (daily_returns (ffill data))) V0 H R (length tickers) of
             Inl e \<Rightarrow> Inl e
           | Inr (df, g) \<Rightarrow>
               (case risk_summary df V0 of Inl e \<Rightarrow> Inl e | Inr m \<Rightarrow> Inr (df, m))))"
  by (cases "iloc_last (ffill data)") (simp_all add: analysis_def Let_def)

lemma iloc_last_cases: "iloc_last df = Inl IndexError \<or> (\<exists>row. iloc_last df = Inr row)"
  by (simp add: iloc_last_def)

lemma risk_summary_no_runs: "risk_summary [] V0 = Inl IndexError"
  by (simp add: risk_summary_def iloc_last_no_runs)

lemma risk_summary_no_days: "risk_summary (map (\<lambda>r. []) [0..<R]) V0 = Inl IndexError"
  by (simp add: risk_summary_def iloc_last_no_days)

lemma simulate_no_runs:
  "simulate G g0 loc scale V0 H 0 T = Inr ([], seed G 42 g0)"
  by (simp add: simulate_def)

lemma simulate_no_days:
  "simulate G g0 loc scale V0 0 R T = Inl ValueError \<or>
   (\<exists>g. simulate G g0 loc scale V0 0 R T = Inr (map (\<lambda>r. []) [0..<R], g))"
  by (simp add: simulate_cases run_path_no_days)

lemma analysis_no_runs:
  "analysis G g0 data tickers V0 H 0 = Inl IndexError"
  using iloc_last_cases[of "ffill data"]
  by (auto simp: analysis_unfold simulate_no_runs risk_summary_no_runs)

lemma analysis_no_days:
  "analysis G g0 data tickers V0 0 R = Inl IndexError \<or>
   analysis G g0 data tickers V0 0 R = Inl ValueError"
proof -
  let ?loc = "map series_mean (daily_returns (ffill data))"
  let ?scale = "map series_std (daily_returns (ffill data))"
  from iloc_last_cases[of "ffill data"] show ?thesis
  proof
    assume "iloc_last (ffill data) = Inl IndexError"
    then show ?thesis by (simp add: analysis_unfold)
  next
    assume "\<exists>row. iloc_last (ffill data) = Inr row"
    then obtain row where row: "iloc_last (ffill data) = Inr row" ..
    from simulate_no_days[of G g0 ?loc ?scale V0 R "length tickers"] show ?thesis
    proof
      assume "simulate G g0 ?loc ?scale V0 0 R (length tickers) = Inl ValueError"
      then show ?thesis by (simp add: analysis_unfold row)
    next
      assume "\<exists>g. simulate G g0 ?loc ?scale V0 0 R (length tickers) = Inr (map (\<lambda>r. []) [0..<R], g)"
      then obtain g where "simulate G g0 ?loc ?scale V0 0 R (length tickers) = Inr (map (\<lambda>r. []) [0..<R], g)" ..
      then show ?thesis by (simp add: analysis_unfold row risk_summary_no_days)
    qed
  qed
qed

lemma fsqrt_not_negative: "\<not> flt (fsqrt x) (Fin 0)"
  by (cases x) simp_all

lemma statistics_accepted:
  assumes "length data = T"
  shows "params_ok (map series_mean (daily_returns data)) (map series_std (daily_returns data)) T"
  using assms
  by (simp add: params_ok_def broadcast_def list_ex_iff series_std_def fsqrt_not_negative
      length_daily_returns)

lemma analysis_no_days_index:
  assumes "length data = length tickers"
  shows "analysis G g0 data tickers V0 0 R = Inl IndexError"
proof -
  have len: "length (ffill data) = length tickers" by (simp add: ffill_def assms)
  from iloc_last_cases[of "ffill data"] show ?thesis
  proof
    assume "iloc_last (ffill data) = Inl IndexError"
    then show ?thesis by (simp add: analysis_unfold)
  next
    assume "\<exists>row. iloc_last (ffill data) = Inr row"
    then obtain row where row: "iloc_last (ffill data) = Inr row" ..
    show ?thesis
      by (simp add: analysis_unfold row simulate_cases statistics_accepted[OF len]
          run_path_no_days risk_summary_no_days)
  qed
qed

lemma analysis_short_history:
  assumes cols: "length data = length tickers" and tick: "tickers \<noteq> []"
    and rows: "1 \<le> nrows data"
    and short: "nrows (daily_returns (ffill data)) < 2"
    and H: "1 \<le> H" and R: "1 \<le> R"
  shows "analysis G g0 data tickers V0 H R =
           Inr (replicate R (replicate H NaN),
                \<lparr>future_value_95 = NaN, VaR_95 = NaN, verdict = Gain NaN\<rparr>)"
proof -
  let ?T = "length tickers"
  let ?returns = "daily_returns (ffill data)"
  have T: "0 < ?T" using tick by simp
  have len: "length (ffill data) = ?T" by (simp add: ffill_def cols)
  have vol: "map series_std ?returns = replicate ?T NaN"
    using short_history_vol[OF short] by (simp add: len)
  have loc: "length (map series_mean ?returns) = ?T"
    by (simp add: length_daily_returns len)
  have "nrows (ffill data) \<noteq> 0" using rows by (simp add: nrows_ffill)
  then have lp: "iloc_last (ffill data) = Inr (map last (ffill data))"
    by (simp add: iloc_last_def)
  have sim: "simulate G g0 (map series_mean ?returns) (map series_std ?returns) V0 H R ?T =
               Inr (replicate R (replicate H NaN), advance (seed G 42 g0) (R * (H * ?T)))"
    unfolding vol by (rule simulate_NaN[OF loc T])
  have risk: "risk_summary (replicate R (replicate H NaN)) V0 =
                Inr \<lparr>future_value_95 = NaN, VaR_95 = NaN, verdict = Gain NaN\<rparr>"
    using H R by (intro risk_summary_NaN) simp_all
  show ?thesis
    unfolding analysis_unfold lp sim by (simp add: risk)
qed

text \<open>
  Claim C4, amended. The script validates nothing and has no failure type of its own: its
  horizon and run count are not inputs but the constants 252 and 10000. In the analysis
  with the horizon and the run count as parameters, a run count of 0 ends with Python's
  \<^verbatim>\<open>IndexError\<close>, raised where the last row of a frame is read (line 84 or line 129); a
  horizon of 0 ends with that \<^verbatim>\<open>IndexError\<close> or with the \<^verbatim>\<open>ValueError\<close> of the generator,
  and with the \<^verbatim>\<open>IndexError\<close> when the table has one column per ticker. With fewer than
  2 return observations (a table of at least one row, one column per ticker, at least one
  ticker, horizon and run count at least 1, as the script's are) nothing is raised: every
  value of the ensemble is NaN, the percentile and the VaR are NaN, and the gain branch
  is taken.
\<close>

theorem no_validation:
  "run_analysis G g0 data tickers V0 = analysis G g0 data tickers V0 252 10000 \<and>
   analysis G g0 data tickers V0 H 0 = Inl IndexError \<and>
   (analysis G g0 data tickers V0 0 R = Inl IndexError \<or>
    analysis G g0 data tickers V0 0 R = Inl ValueError) \<and>
   (length data = length tickers \<longrightarrow> analysis G g0 data tickers V0 0 R = Inl IndexError) \<and>
   (length data = length tickers \<and> tickers \<noteq> [] \<and> 1 \<le> nrows data \<and>
    nrows (daily_returns (ffill data)) < 2 \<and> 1 \<le> H \<and> 1 \<le> R \<longrightarrow>
      analysis G g0 data tickers V0 H R =
        Inr (replicate R (replicate H NaN),
             \<lparr>future_value_95 = NaN, VaR_95 = NaN, verdict = Gain NaN\<rparr>))"
proof (intro conjI impI)
  show "run_analysis G g0 data tickers V0 = analysis G g0 data tickers V0 252 10000"
    by (simp only: run_analysis_def time_horizon_def num_simulations_def)
  show "analysis G g0 data tickers V0 H 0 = Inl IndexError"
    by (rule analysis_no_runs)
  show "analysis G g0 data tickers V0 0 R = Inl IndexError \<or>
        analysis G g0 data tickers V0 0 R = Inl ValueError"
    by (rule analysis_no_days)
  show "analysis G g0 data tickers V0 0 R = Inl IndexError"
    if "length data = length tickers"
    using that by (rule analysis_no_days_index)
  show "analysis G g0 data tickers V0 H R =
        Inr (replicate R (replicate H NaN),
             \<lparr>future_value_95 = NaN, VaR_95 = NaN, verdict = Gain NaN\<rparr>)"
    if "length data = length tickers \<and> tickers \<noteq> [] \<and> 1 \<le> nrows data \<and>
        nrows (daily_returns (ffill data)) < 2 \<and> 1 \<le> H \<and> 1 \<le> R"
    using that by (intro analysis_short_history) simp_all
qed

lemma demo_short_history:
  "nrows (daily_returns (ffill [[Fin 100, Fin 110], [Fin 50, Fin 40]])) = 1"
  by (simp add: ffill_def nrows_def daily_returns_def dropna_def kept_rows_def row_has_na_def
      pct_change_def fsub_def upt_rec)

lemma demo_one_observation:
  "nrows (daily_returns (ffill [[Fin 100, Fin 110]])) = 1"
  by (simp add: ffill_def nrows_def daily_returns_def dropna_def kept_rows_def row_has_na_def
      pct_change_def fsub_def upt_rec)

text \<open>Two assets with two prices each, that is one return observation per asset, at the
  script's horizon and run count.\<close>

theorem no_validation_witness:
  "length [[Fin 100, Fin 110], [Fin 50, Fin 40]] = length [''AAPL'', ''MSFT''] \<and>
   nrows (daily_returns (ffill [[Fin 100, Fin 110], [Fin 50, Fin 40]])) < 2 \<and>
   run_analysis (\<lambda>s k. real k / 10) \<lparr>stream = (\<lambda>k. 0), pos = 7\<rparr>
       [[Fin 100, Fin 110], [Fin 50, Fin 40]] [''AAPL'', ''MSFT''] 10000 =
     analysis (\<lambda>s k. real k / 10) \<lparr>stream = (\<lambda>k. 0), pos = 7\<rparr>
       [[Fin 100, Fin 110], [Fin 50, Fin 40]] [''AAPL'', ''MSFT''] 10000 252 10000 \<and>
   analysis (\<lambda>s k. real k / 10) \<lparr>stream = (\<lambda>k. 0), pos = 7\<rparr>
       [[Fin 100, Fin 110], [Fin 50, Fin 40]] [''AAPL'', ''MSFT''] 10000 252 10000 =
     Inr (replicate 10000 (replicate 252 NaN),
          \<lparr>future_value_95 = NaN, VaR_95 = NaN, verdict = Gain NaN\<rparr>)"
proof -
  have cols: "length [[Fin 100, Fin 110], [Fin 50, Fin 40]] = length [''AAPL'', ''MSFT'']"
    by simp
  have short: "nrows (daily_returns (ffill [[Fin 100, Fin 110], [Fin 50, Fin 40]])) < 2"
    by (simp add: demo_short_history)
  have rows: "1 \<le> nrows [[Fin 100, Fin 110], [Fin 50, Fin 40]]"
    by (simp add: nrows_def)
  have hyp: "length [[Fin 100, Fin 110], [Fin 50, Fin 40]] = length [''AAPL'', ''MSFT''] \<and>
     [''AAPL'', ''MSFT''] \<noteq> [] \<and> 1 \<le> nrows [[Fin 100, Fin 110], [Fin 50, Fin 40]] \<and>
     nrows (daily_returns (ffill [[Fin 100, Fin 110], [Fin 50, Fin 40]])) < 2 \<and>
     (1 :: nat) \<le> 252 \<and> (1 :: nat) \<le> 10000"
    using cols short rows by simp
  note th = no_validation[of "\<lambda>s k. real k / 10" "\<lparr>stream = (\<lambda>k. 0), pos = 7\<rparr>"
      "[[Fin 100, Fin 110], [Fin 50, Fin 40]]" "[''AAPL'', ''MSFT'']" 10000 252 10000]
  from th have run: "run_analysis (\<lambda>s k. real k / 10) \<lparr>stream = (\<lambda>k. 0), pos = 7\<rparr>
       [[Fin 100, Fin 110], [Fin 50, Fin 40]] [''AAPL'', ''MSFT''] 10000 =
     analysis (\<lambda>s k. real k / 10) \<lparr>stream = (\<lambda>k. 0), pos = 7\<rparr>
       [[Fin 100, Fin 110], [Fin 50, Fin 40]] [''AAPL'', ''MSFT''] 10000 252 10000"
    by (rule conjunct1)
  from th hyp have "analysis (\<lambda>s k. real k / 10) \<lparr>stream = (\<lambda>k. 0), pos = 7\<rparr>
       [[Fin 100, Fin 110], [Fin 50, Fin 40]] [''AAPL'', ''MSFT''] 10000 252 10000 =
        Inr (replicate 10000 (replicate 252 NaN),
             \<lparr>future_value_95 = NaN, VaR_95 = NaN, verdict = Gain NaN\<rparr>)"
    by blast
  with cols short run show ?thesis by blast
qed

text \<open>
  Claim C4 as stated fails: on one asset with two prices, that is one return observation,
  the script raises nothing. Its 10000 runs of 252 days are all NaN, and it reports NaN
  for the percentile and for the VaR, with the gain branch taken.
\<close>

theorem no_validation_counterexample:
  "run_analysis (\<lambda>s k. real k / 10) \<lparr>stream = (\<lambda>k. 0), pos = 7\<rparr>
       [[Fin 100, Fin 110]] [''AAPL''] 10000 =
     Inr (replicate 10000 (replicate 252 NaN),
          \<lparr>future_value_95 = NaN, VaR_95 = NaN, verdict = Gain NaN\<rparr>)"
proof -
  have short: "nrows (daily_returns (ffill [[Fin 100, Fin 110]])) < 2"
    by (simp add: demo_one_observation)
  have rows: "1 \<le> nrows [[Fin 100, Fin 110]]" by (simp add: nrows_def)
  have "analysis (\<lambda>s k. real k / 10) \<lparr>stream = (\<lambda>k. 0), pos = 7\<rparr>
       [[Fin 100, Fin 110]] [''AAPL''] 10000 252 10000 =
     Inr (replicate 10000 (replicate 252 NaN),
          \<lparr>future_value_95 = NaN, VaR_95 = NaN, verdict = Gain NaN\<rparr>)"
    by (rule analysis_short_history[OF _ _ rows short]) simp_all
  then show ?thesis
    by (simp only: run_analysis_def time_horizon_def num_simulations_def)
qed

end
